theory Spec2Isabelle
  imports Complex_Main
begin

section \<open>JavaScript numbers\<close>

text \<open>
  The scoring code of \<^verbatim>\<open>AudioManager.js\<close> computes on IEEE 754 doubles, and the model
  computes on them too: a finite double is the real number it denotes, the three
  non-finite values are kept apart, and every arithmetic operation rounds its exact
  result to the nearest double, a tie going to the even significand. The reals have one
  zero, so \<open>-0\<close> and \<open>+0\<close> are one value here: the comparisons \<^verbatim>\<open>===\<close>, \<^verbatim>\<open><\<close> and \<^verbatim>\<open>>\<close> of
  the code do not tell them apart, and a zero divisor under a nonzero dividend takes the
  sign of the dividend (every zero divisor that \<^verbatim>\<open>compareAudio\<close> can meet is a sample
  count or a maximum of durations, which are \<open>+0\<close>).
\<close>

datatype jsnum = Num real | PInf | NInf | NaN

text \<open>Powers of two with an integer exponent.\<close>

definition pow2 :: "int \<Rightarrow> real" where
  "pow2 e = (if 0 \<le> e then 2 ^ nat e else 1 / 2 ^ nat (- e))"

text \<open>The nearest integer, a tie going to the even one.\<close>

definition rhe :: "real \<Rightarrow> int" where
  "rhe y = (let f = \<lfloor>y\<rfloor> in
            if y - of_int f < 1 / 2 then f
            else if 1 / 2 < y - of_int f then f + 1
            else if even f then f else f + 1)"

text \<open>
  The double nearest to a real: 53 significant bits, the exponent of the unit in the
  last place no less than \<open>-1074\<close> (below \<open>pow2 (- 1022)\<close> the doubles are subnormal), and
  an infinity once the rounded magnitude reaches \<open>pow2 1024\<close>. A decimal literal of the
  source denotes the double nearest to it, so the literal \<^verbatim>\<open>0.35\<close> is \<open>fl (35 / 100)\<close>.
\<close>

definition fl :: "real \<Rightarrow> jsnum" where
  "fl x = (if x = 0 then Num 0
           else let q = pow2 (max \<lfloor>log 2 \<bar>x\<bar>\<rfloor> (- 1022) - 52);
                    r = of_int (rhe (x / q)) * q
                in if pow2 1024 \<le> \<bar>r\<bar> then (if 0 < x then PInf else NInf) else Num r)"

fun jneg :: "jsnum \<Rightarrow> jsnum" where
  "jneg (Num a) = Num (- a)"
| "jneg PInf = NInf"
| "jneg NInf = PInf"
| "jneg NaN = NaN"

fun jadd :: "jsnum \<Rightarrow> jsnum \<Rightarrow> jsnum" where
  "jadd (Num a) (Num b) = fl (a + b)"
| "jadd NaN _ = NaN"
| "jadd _ NaN = NaN"
| "jadd PInf NInf = NaN"
| "jadd NInf PInf = NaN"
| "jadd PInf _ = PInf"
| "jadd _ PInf = PInf"
| "jadd NInf _ = NInf"
| "jadd _ NInf = NInf"

definition jsub :: "jsnum \<Rightarrow> jsnum \<Rightarrow> jsnum" where
  "jsub a b = jadd a (jneg b)"

fun jmul :: "jsnum \<Rightarrow> jsnum \<Rightarrow> jsnum" where
  "jmul (Num a) (Num b) = fl (a * b)"
| "jmul NaN _ = NaN"
| "jmul _ NaN = NaN"
| "jmul PInf (Num b) = (if 0 < b then PInf else if b < 0 then NInf else NaN)"
| "jmul NInf (Num b) = (if 0 < b then NInf else if b < 0 then PInf else NaN)"
| "jmul (Num a) PInf = (if 0 < a then PInf else if a < 0 then NInf else NaN)"
| "jmul (Num a) NInf = (if 0 < a then NInf else if a < 0 then PInf else NaN)"
| "jmul PInf PInf = PInf"
| "jmul PInf NInf = NInf"
| "jmul NInf PInf = NInf"
| "jmul NInf NInf = PInf"

fun jdiv :: "jsnum \<Rightarrow> jsnum \<Rightarrow> jsnum" where
  "jdiv (Num a) (Num b) =
     (if b \<noteq> 0 then fl (a / b)
      else if 0 < a then PInf else if a < 0 then NInf else NaN)"
| "jdiv NaN _ = NaN"
| "jdiv _ NaN = NaN"
| "jdiv (Num a) PInf = Num 0"
| "jdiv (Num a) NInf = Num 0"
| "jdiv PInf (Num b) = (if 0 \<le> b then PInf else NInf)"
| "jdiv NInf (Num b) = (if 0 \<le> b then NInf else PInf)"
| "jdiv PInf PInf = NaN"
| "jdiv PInf NInf = NaN"
| "jdiv NInf PInf = NaN"
| "jdiv NInf NInf = NaN"

fun jabs :: "jsnum \<Rightarrow> jsnum" where
  "jabs (Num a) = Num \<bar>a\<bar>"
| "jabs PInf = PInf"
| "jabs NInf = PInf"
| "jabs NaN = NaN"

text \<open>\<^verbatim>\<open>Math.sqrt\<close>: the square root, rounded; \<open>NaN\<close> below zero.\<close>

fun jsqrt :: "jsnum \<Rightarrow> jsnum" where
  "jsqrt (Num a) = (if 0 \<le> a then fl (sqrt a) else NaN)"
| "jsqrt PInf = PInf"
| "jsqrt NInf = NaN"
| "jsqrt NaN = NaN"

text \<open>The comparison \<open>a < b\<close>: false as soon as one side is \<open>NaN\<close>.\<close>

fun jless :: "jsnum \<Rightarrow> jsnum \<Rightarrow> bool" where
  "jless (Num a) (Num b) = (a < b)"
| "jless NaN _ = False"
| "jless _ NaN = False"
| "jless NInf NInf = False"
| "jless NInf _ = True"
| "jless PInf _ = False"
| "jless (Num a) PInf = True"
| "jless (Num a) NInf = False"

definition jgt :: "jsnum \<Rightarrow> jsnum \<Rightarrow> bool" where
  "jgt a b = jless b a"

text \<open>The comparison \<open>a \<le> b\<close> (and \<open>b >= a\<close>), false as soon as one side is \<open>NaN\<close>.\<close>

definition jle :: "jsnum \<Rightarrow> jsnum \<Rightarrow> bool" where
  "jle a b \<longleftrightarrow> a \<noteq> NaN \<and> b \<noteq> NaN \<and> \<not> jless b a"

text \<open>\<^verbatim>\<open>Math.max\<close> and \<^verbatim>\<open>Math.min\<close> return \<open>NaN\<close> when an argument is \<open>NaN\<close>.\<close>

definition jmax :: "jsnum \<Rightarrow> jsnum \<Rightarrow> jsnum" where
  "jmax a b = (if a = NaN \<or> b = NaN then NaN else if jless a b then b else a)"

definition jmin :: "jsnum \<Rightarrow> jsnum \<Rightarrow> jsnum" where
  "jmin a b = (if a = NaN \<or> b = NaN then NaN else if jless b a then b else a)"

text \<open>
  \<^verbatim>\<open>Math.round\<close>: the nearest integer, a tie going up; \<^verbatim>\<open>Math.floor\<close>. Both are exact
  (a double of magnitude \<open>pow2 52\<close> or more is an integer).
\<close>

fun jround :: "jsnum \<Rightarrow> jsnum" where
  "jround (Num a) = Num (of_int \<lfloor>a + 1 / 2\<rfloor>)"
| "jround PInf = PInf"
| "jround NInf = NInf"
| "jround NaN = NaN"

fun jfloor :: "jsnum \<Rightarrow> jsnum" where
  "jfloor (Num a) = Num (of_int \<lfloor>a\<rfloor>)"
| "jfloor PInf = PInf"
| "jfloor NInf = NInf"
| "jfloor NaN = NaN"

text \<open>
  The accumulation loop \<^verbatim>\<open>let sum = 0; for (i of is) sum += f(i)\<close>: the terms are added
  in the order of the loop, and every addition rounds.
\<close>

definition jsum :: "('a \<Rightarrow> jsnum) \<Rightarrow> 'a list \<Rightarrow> jsnum" where
  "jsum f is = fold (\<lambda>i acc. jadd acc (f i)) is (Num 0)"

text \<open>
  \<^verbatim>\<open>Math.log\<close>, \<^verbatim>\<open>Math.log10\<close> and \<^verbatim>\<open>Math.pow\<close> are implementation-approximated in
  ECMAScript: an engine may return any double close to the exact result. They are
  parameters of the model.
\<close>

record Math =
  Math_log :: "jsnum \<Rightarrow> jsnum"
  Math_log10 :: "jsnum \<Rightarrow> jsnum"
  Math_pow :: "jsnum \<Rightarrow> jsnum \<Rightarrow> jsnum"

section \<open>Typed arrays and audio buffers\<close>

text \<open>
  A \<^verbatim>\<open>Float32Array\<close> is an object: two variables may name the same array, and a write
  through one is seen through the other. The store holds every array by address; an
  address is an index into the store, and allocation appends.
\<close>

type_synonym addr = nat
type_synonym heap = "real list list"

definition arr :: "heap \<Rightarrow> addr \<Rightarrow> real list" where
  "arr h a = (if a < length h then h ! a else [])"

text \<open>
  \<open>ReadOutOfRange\<close> is not a JavaScript exception: a read past the end of a typed array
  gives \<^verbatim>\<open>undefined\<close>, which a \<^verbatim>\<open>Float32Array\<close> stores as \<open>NaN\<close>. Samples are reals
  here, so the model stops at such a read.
\<close>

datatype error = MissingBuffers | IndexSizeError | RangeError | ReadOutOfRange

type_synonym 'a js = "heap \<Rightarrow> (error + 'a) \<times> heap"

definition js_return :: "'a \<Rightarrow> 'a js" where
  "js_return x = (\<lambda>h. (Inr x, h))"

definition js_throw :: "error \<Rightarrow> 'a js" where
  "js_throw e = (\<lambda>h. (Inl e, h))"

definition js_bind :: "'a js \<Rightarrow> ('a \<Rightarrow> 'b js) \<Rightarrow> 'b js" where
  "js_bind m f = (\<lambda>h. case m h of (Inl e, h') \<Rightarrow> (Inl e, h') | (Inr x, h') \<Rightarrow> f x h')"

fun js_forEach :: "('a \<Rightarrow> unit js) \<Rightarrow> 'a list \<Rightarrow> unit js" where
  "js_forEach f [] = js_return ()"
| "js_forEach f (x # xs) = js_bind (f x) (\<lambda>_. js_forEach f xs)"

text \<open>\<^verbatim>\<open>new Float32Array(n)\<close>: a fresh array of \<open>n\<close> zeros.\<close>

definition newFloat32Array :: "nat \<Rightarrow> addr js" where
  "newFloat32Array n = (\<lambda>h. (Inr (length h), h @ [replicate n 0]))"

text \<open>\<^verbatim>\<open>a.slice(start, end)\<close>: a fresh array holding a copy; the range is clamped.\<close>

definition f32_slice :: "addr \<Rightarrow> nat \<Rightarrow> nat \<Rightarrow> addr js" where
  "f32_slice a start end' = (\<lambda>h. (Inr (length h), h @ [take (end' - start) (drop start (arr h a))]))"

text \<open>\<^verbatim>\<open>target.set(source)\<close>: writes the source over the start of the target.\<close>

definition f32_set :: "addr \<Rightarrow> addr \<Rightarrow> unit js" where
  "f32_set target source = (\<lambda>h.
     if length (arr h target) < length (arr h source) then (Inl RangeError, h)
     else (Inr (), h[target := arr h source @ drop (length (arr h source)) (arr h target)]))"

definition f32_length :: "addr \<Rightarrow> nat js" where
  "f32_length a = (\<lambda>h. (Inr (length (arr h a)), h))"

definition f32_contents :: "addr \<Rightarrow> real list js" where
  "f32_contents a = (\<lambda>h. (Inr (arr h a), h))"

text \<open>\<^verbatim>\<open>a[i]\<close> and \<^verbatim>\<open>a[i] = v\<close>; a write past the end of a typed array is ignored.\<close>

definition f32_get :: "addr \<Rightarrow> nat \<Rightarrow> real js" where
  "f32_get a i = (\<lambda>h. if i < length (arr h a) then (Inr (arr h a ! i), h) else (Inl ReadOutOfRange, h))"

definition f32_put :: "addr \<Rightarrow> nat \<Rightarrow> real \<Rightarrow> unit js" where
  "f32_put a i v = (\<lambda>h. (Inr (), if i < length (arr h a) then h[a := (arr h a)[i := v]] else h))"

text \<open>
  An \<^verbatim>\<open>AudioBuffer\<close> of the Web Audio API: its channels are typed arrays, which
  \<^verbatim>\<open>getChannelData\<close> hands out by reference. \<^verbatim>\<open>duration\<close> is the API's derived
  property, the sample count over the sample rate, a double.
\<close>

record AudioBuffer =
  numberOfChannels :: nat
  length_buf :: nat
  sampleRate :: real
  channelData :: "addr list"

definition duration :: "AudioBuffer \<Rightarrow> jsnum" where
  "duration b = jdiv (Num (real (length_buf b))) (Num (sampleRate b))"

definition getChannelData :: "AudioBuffer \<Rightarrow> nat \<Rightarrow> addr js" where
  "getChannelData b c =
     (if c < numberOfChannels b \<and> c < length (channelData b)
      then js_return (channelData b ! c) else js_throw IndexSizeError)"

text \<open>
  \<^verbatim>\<open>audioContext.createBuffer\<close>: fresh zeroed channels. (The API refuses a buffer with
  no channel, no sample or a non-positive rate; the source only calls it with the
  dimensions of an existing buffer.)
\<close>

definition createBuffer :: "nat \<Rightarrow> nat \<Rightarrow> real \<Rightarrow> AudioBuffer js" where
  "createBuffer n len rate = (\<lambda>h.
     (Inr \<lparr>numberOfChannels = n, length_buf = len, sampleRate = rate,
           channelData = [length h ..< length h + n]\<rparr>,
      h @ replicate n (replicate len 0)))"

text \<open>
  The buffers a browser hands out are well formed in the store: one allocated array per
  channel, each as long as the buffer.
\<close>

definition wf_buffer :: "heap \<Rightarrow> AudioBuffer \<Rightarrow> bool" where
  "wf_buffer h b \<longleftrightarrow>
     0 < numberOfChannels b \<and> length (channelData b) = numberOfChannels b \<and>
     list_all (\<lambda>a. a < length h \<and> length (h ! a) = length_buf b) (channelData b)"

definition channel :: "heap \<Rightarrow> AudioBuffer \<Rightarrow> nat \<Rightarrow> real list" where
  "channel h b c = arr h (channelData b ! c)"

text \<open>
  The values that an \<^verbatim>\<open>AudioBuffer\<close> of the API holds. Its \<^verbatim>\<open>length\<close> is an
  \<^verbatim>\<open>unsigned long\<close> and at least 1 (the API refuses to create an empty buffer), and its
  \<^verbatim>\<open>sampleRate\<close> is a positive \<^verbatim>\<open>float\<close>. A sample is a \<^verbatim>\<open>float\<close> too (the buffers
  that the application records hold no \<open>NaN\<close> and no infinity): zero, or of a
  magnitude from \<open>pow2 (- 149)\<close> up to \<open>pow2 128\<close>.
\<close>

definition float_range :: "real \<Rightarrow> bool" where
  "float_range x \<longleftrightarrow> x = 0 \<or> (pow2 (- 149) \<le> \<bar>x\<bar> \<and> \<bar>x\<bar> < pow2 128)"

definition api_buffer :: "AudioBuffer \<Rightarrow> bool" where
  "api_buffer b \<longleftrightarrow>
     0 < length_buf b \<and> length_buf b < 2 ^ 32 \<and>
     pow2 (- 149) \<le> sampleRate b \<and> sampleRate b < pow2 128"

definition api_samples :: "real list \<Rightarrow> bool" where
  "api_samples xs \<longleftrightarrow> list_all float_range xs"

section \<open>reverseAudioBuffer\<close>

definition reverseChannel :: "AudioBuffer \<Rightarrow> AudioBuffer \<Rightarrow> nat \<Rightarrow> unit js" where
  "reverseChannel inputBuffer reversedBuffer ch =
     js_bind (getChannelData inputBuffer ch) (\<lambda>inputData.
     js_bind (getChannelData reversedBuffer ch) (\<lambda>outputData.
       js_forEach (\<lambda>i.
         js_bind (f32_get inputData (length_buf inputBuffer - 1 - i)) (\<lambda>v.
           f32_put outputData i v))
         [0 ..< length_buf inputBuffer]))"

definition reverseAudioBuffer :: "AudioBuffer \<Rightarrow> AudioBuffer js" where
  "reverseAudioBuffer inputBuffer =
     js_bind (createBuffer (numberOfChannels inputBuffer) (length_buf inputBuffer)
                (sampleRate inputBuffer)) (\<lambda>reversedBuffer.
     js_bind (js_forEach (reverseChannel inputBuffer reversedBuffer)
                [0 ..< numberOfChannels inputBuffer]) (\<lambda>_.
       js_return reversedBuffer))"

section \<open>Descriptor extractors\<close>

text \<open>
  The extractors take the samples of one array and only read them (\<^verbatim>\<open>slice\<close> copies,
  indexing reads), so each is a function of the array's contents. Every loop of the shape
  \<^verbatim>\<open>for (pos = 0; pos < audioData.length - windowSize; pos += hopSize)\<close> visits the
  positions below; the bound is a difference of JavaScript numbers and may be negative.
  All callers pass a positive constant hop (the guard \<open>0 < hop\<close> only serves termination).
  The parameter \<^verbatim>\<open>sampleRate\<close> of the source is \<open>rate\<close> here, the name being taken by
  the field of the buffer. Counters, lengths and indices are integers far below \<open>pow2 53\<close>,
  which the doubles hold exactly: they are natural numbers here, and the index
  \<^verbatim>\<open>Math.floor(i * n / m)\<close> is \<open>i * n div m\<close>.
\<close>

function positions :: "int \<Rightarrow> nat \<Rightarrow> nat \<Rightarrow> nat list" where
  "positions bound hop pos =
     (if int pos < bound \<and> 0 < hop then pos # positions bound hop (pos + hop) else [])"
  by pat_completeness auto
termination
  by (relation "measure (\<lambda>(bound, hop, pos). nat (bound - int pos))") auto

declare positions.simps [simp del]

subsection \<open>extractMFCCFeatures\<close>

definition melBands :: "Math \<Rightarrow> real \<Rightarrow> jsnum list" where
  "melBands math rate =
     map (\<lambda>i. let melFreq =
                    jmul (jmul (jdiv (Num (real i)) (Num 13)) (Num 2595))
                         (Math_log10 math
                            (jadd (Num 1) (jdiv (jdiv (Num rate) (Num 2)) (Num 700))))
              in jmul (Num 700)
                      (jsub (Math_pow math (Num 10) (jdiv melFreq (Num 2595))) (Num 1)))
         [0 ..< 13]"

text \<open>
  One round of the loop over \<open>i\<close>: the inner loop over the bands stops at the first band
  whose edges hold the frequency (\<^verbatim>\<open>break\<close>), which is what \<^const>\<open>find\<close> returns.
\<close>

definition bandStep :: "real list \<Rightarrow> real \<Rightarrow> jsnum list \<Rightarrow> nat \<Rightarrow> jsnum list \<Rightarrow> jsnum list" where
  "bandStep frame rate mel i bandEnergies =
     (let freq = jdiv (jmul (Num (real i)) (Num rate)) (Num 2048);
          magnitude = jabs (Num (frame ! i))
      in case find (\<lambda>b. jle (mel ! b) freq \<and> jless freq (mel ! (b + 1))) [0 ..< 13 - 1] of
           None \<Rightarrow> bandEnergies
         | Some b \<Rightarrow> bandEnergies[b := jadd (bandEnergies ! b) (jmul magnitude magnitude)])"

definition frameLogEnergies :: "Math \<Rightarrow> real list \<Rightarrow> real \<Rightarrow> nat \<Rightarrow> jsnum list" where
  "frameLogEnergies math audioData rate pos =
     (let frame = take 2048 (drop pos audioData);
          bandEnergies = fold (bandStep frame rate (melBands math rate)) [0 ..< 2048 div 2]
                           (replicate 13 (Num 0))
      in map (\<lambda>e. Math_log math (jadd e (fl (1 / 10 ^ 10)))) bandEnergies)"

definition extractMFCCFeatures :: "Math \<Rightarrow> real list \<Rightarrow> real \<Rightarrow> jsnum list list" where
  "extractMFCCFeatures math audioData rate =
     map (frameLogEnergies math audioData rate)
         (positions (int (length audioData) - 2048) 512 0)"

subsection \<open>calculateMFCCSimilarity\<close>

text \<open>
  The three sums of the inner loop run over the indices of \<open>f1\<close>; an index past the end
  of \<open>f2\<close> reads \<^verbatim>\<open>undefined\<close>, which is \<open>NaN\<close> in arithmetic.
\<close>

definition item :: "jsnum list \<Rightarrow> nat \<Rightarrow> jsnum" where
  "item xs j = (if j < length xs then xs ! j else NaN)"

definition cosineSimilarity :: "jsnum list \<Rightarrow> jsnum list \<Rightarrow> jsnum" where
  "cosineSimilarity f1 f2 =
     (let dotProduct = jsum (\<lambda>j. jmul (item f1 j) (item f2 j)) [0 ..< length f1];
          mag1 = jsum (\<lambda>j. jmul (item f1 j) (item f1 j)) [0 ..< length f1];
          mag2 = jsum (\<lambda>j. jmul (item f2 j) (item f2 j)) [0 ..< length f1]
      in jdiv dotProduct (jadd (jsqrt (jmul mag1 mag2)) (fl (1 / 10 ^ 10))))"

definition calculateMFCCSimilarity :: "jsnum list list \<Rightarrow> jsnum list list \<Rightarrow> jsnum" where
  "calculateMFCCSimilarity features1 features2 =
     (if length features1 = 0 \<or> length features2 = 0 then Num 0
      else let minFrames = min (length features1) (length features2);
               totalSimilarity =
                 jsum (\<lambda>i. cosineSimilarity (features1 ! (i * length features1 div minFrames))
                                             (features2 ! (i * length features2 div minFrames)))
                      [0 ..< minFrames]
           in jdiv totalSimilarity (Num (real minFrames)))"

subsection \<open>extractPitchContour\<close>

definition autocorr :: "real list \<Rightarrow> nat \<Rightarrow> jsnum" where
  "autocorr frame lag =
     jsum (\<lambda>i. jmul (Num (frame ! i)) (Num (frame ! (i + lag)))) [0 ..< 2048 - lag]"

text \<open>One round of the loop over the lags; the state is \<open>(maxCorr, bestLag)\<close>.\<close>

definition lagStep :: "real list \<Rightarrow> nat \<Rightarrow> jsnum \<times> nat \<Rightarrow> jsnum \<times> nat" where
  "lagStep frame lag st =
     (let corr = autocorr frame lag
      in if jgt corr (fst st) then (corr, lag) else st)"

text \<open>
  The lags of the loop \<^verbatim>\<open>for (lag = minLag; lag < maxLag && lag < windowSize / 2; lag++)\<close>,
  for the two bounds \<^verbatim>\<open>Math.floor(sampleRate / maxFreq)\<close> and
  \<^verbatim>\<open>Math.floor(sampleRate / minFreq)\<close>. The sample rate of a buffer is positive, so the
  bounds are not negative; a bound that is not a number ends the loop at once.
\<close>

definition lags :: "jsnum \<Rightarrow> jsnum \<Rightarrow> nat list" where
  "lags minLag maxLag =
     (case minLag of
        Num a \<Rightarrow> [nat \<lfloor>a\<rfloor> ..<
                   (case maxLag of Num b \<Rightarrow> min (nat \<lfloor>b\<rfloor>) (2048 div 2)
                                 | PInf \<Rightarrow> 2048 div 2 | _ \<Rightarrow> 0)]
      | _ \<Rightarrow> [])"

definition framePitch :: "real list \<Rightarrow> real \<Rightarrow> nat \<Rightarrow> jsnum" where
  "framePitch audioData rate pos =
     (let frame = take 2048 (drop pos audioData);
          minLag = jfloor (jdiv (Num rate) (Num 500));
          maxLag = jfloor (jdiv (Num rate) (Num 80));
          st = fold (lagStep frame) (lags minLag maxLag) (NInf, 0);
          maxCorr = fst st;
          bestLag = snd st;
          pitch = (if 0 < bestLag then jdiv (Num rate) (Num (real bestLag)) else Num 0)
      in if jgt maxCorr (fl (3 / 10)) then pitch else Num 0)"

definition extractPitchContour :: "real list \<Rightarrow> real \<Rightarrow> jsnum list" where
  "extractPitchContour audioData rate =
     map (framePitch audioData rate) (positions (int (length audioData) - 2048) 512 0)"

subsection \<open>calculatePitchContourMatch\<close>

text \<open>One round of the loop; the state is \<open>(totalDiff, validFrames)\<close>.\<close>

definition pitchStep :: "jsnum list \<Rightarrow> jsnum list \<Rightarrow> nat \<Rightarrow> nat \<Rightarrow> jsnum \<times> nat \<Rightarrow> jsnum \<times> nat" where
  "pitchStep contour1 contour2 minLen i acc =
     (let p1 = contour1 ! (i * length contour1 div minLen);
          p2 = contour2 ! (i * length contour2 div minLen)
      in if p1 = Num 0 \<and> p2 = Num 0 then acc
         else if (p1 = Num 0) \<noteq> (p2 = Num 0) then (jadd (fst acc) (Num 1), snd acc + 1)
         else (jadd (fst acc) (jmin (Num 1) (jdiv (jabs (jsub p1 p2)) (jmax p1 p2))),
               snd acc + 1))"

definition calculatePitchContourMatch :: "jsnum list \<Rightarrow> jsnum list \<Rightarrow> jsnum" where
  "calculatePitchContourMatch contour1 contour2 =
     (if length contour1 = 0 \<or> length contour2 = 0 then Num (1 / 2)
      else let minLen = min (length contour1) (length contour2);
               acc = fold (pitchStep contour1 contour2 minLen) [0 ..< minLen] (Num 0, 0);
               totalDiff = fst acc;
               validFrames = snd acc
           in if validFrames = 0 then Num (1 / 2)
              else jsub (Num 1) (jdiv totalDiff (Num (real validFrames))))"

subsection \<open>calculateSpectralCentroid\<close>

text \<open>One round of the loop over the frames; the state is \<open>totalCentroid\<close>.\<close>

definition centroidStep :: "real list \<Rightarrow> real \<Rightarrow> nat \<Rightarrow> jsnum \<Rightarrow> jsnum" where
  "centroidStep audioData rate frame totalCentroid =
     (let start = frame * 2048;
          frameData = take 2048 (drop start audioData);
          weightedSum =
            jsum (\<lambda>i. jmul (jdiv (jmul (Num (real i)) (Num rate)) (Num 2048))
                            (jabs (Num (frameData ! i))))
                 [0 ..< length frameData div 2];
          magnitudeSum = jsum (\<lambda>i. jabs (Num (frameData ! i))) [0 ..< length frameData div 2]
      in if jgt magnitudeSum (Num 0) then jadd totalCentroid (jdiv weightedSum magnitudeSum)
         else totalCentroid)"

definition calculateSpectralCentroid :: "real list \<Rightarrow> real \<Rightarrow> jsnum" where
  "calculateSpectralCentroid audioData rate =
     (let numFrames = length audioData div 2048;
          totalCentroid = fold (centroidStep audioData rate) [0 ..< numFrames] (Num 0)
      in if 0 < numFrames then jdiv totalCentroid (Num (real numFrames)) else Num 0)"

subsection \<open>calculateRMSEnergyCurve\<close>

text \<open>Called with the default window only, 2048; the hop is half the window.\<close>

definition calculateRMSEnergyCurve :: "real list \<Rightarrow> nat \<Rightarrow> jsnum list" where
  "calculateRMSEnergyCurve audioData windowSize =
     map (\<lambda>i. jsqrt (jdiv (jsum (\<lambda>j. jmul (Num (audioData ! (i + j)))
                                            (Num (audioData ! (i + j))))
                                [0 ..< windowSize])
                          (Num (real windowSize))))
         (positions (int (length audioData) - int windowSize) (windowSize div 2) 0)"

subsection \<open>calculateCorrelation\<close>

definition calculateCorrelation :: "jsnum list \<Rightarrow> jsnum list \<Rightarrow> jsnum" where
  "calculateCorrelation arr1 arr2 =
     (let len = min (length arr1) (length arr2)
      in if len = 0 then Num 0
         else let sum1 = jsum (\<lambda>i. arr1 ! i) [0 ..< len];
                  sum2 = jsum (\<lambda>i. arr2 ! i) [0 ..< len];
                  sum1Sq = jsum (\<lambda>i. jmul (arr1 ! i) (arr1 ! i)) [0 ..< len];
                  sum2Sq = jsum (\<lambda>i. jmul (arr2 ! i) (arr2 ! i)) [0 ..< len];
                  pSum = jsum (\<lambda>i. jmul (arr1 ! i) (arr2 ! i)) [0 ..< len];
                  num = jsub pSum (jdiv (jmul sum1 sum2) (Num (real len)));
                  den = jsqrt (jmul (jsub sum1Sq (jdiv (jmul sum1 sum1) (Num (real len))))
                                    (jsub sum2Sq (jdiv (jmul sum2 sum2) (Num (real len)))))
              in if den = Num 0 then Num 0 else jdiv num den)"

section \<open>compareAudio\<close>

subsection \<open>The six similarity terms\<close>

definition mfccSimilarity :: "Math \<Rightarrow> real list \<Rightarrow> real list \<Rightarrow> real \<Rightarrow> jsnum" where
  "mfccSimilarity math normalized1 normalized2 rate =
     (let mfccFeatures1 = extractMFCCFeatures math normalized1 rate;
          mfccFeatures2 = extractMFCCFeatures math normalized2 rate;
          mfccSimilarityRaw = calculateMFCCSimilarity mfccFeatures1 mfccFeatures2
      in jdiv (jadd mfccSimilarityRaw (Num 1)) (Num 2))"

definition pitchMatch :: "real list \<Rightarrow> real list \<Rightarrow> real \<Rightarrow> jsnum" where
  "pitchMatch normalized1 normalized2 rate =
     calculatePitchContourMatch (extractPitchContour normalized1 rate)
                                (extractPitchContour normalized2 rate)"

definition envelopeMatch :: "real list \<Rightarrow> real list \<Rightarrow> jsnum" where
  "envelopeMatch normalized1 normalized2 =
     (let envelope1 = calculateRMSEnergyCurve normalized1 2048;
          envelope2 = calculateRMSEnergyCurve normalized2 2048;
          envelopeCorrelation = calculateCorrelation envelope1 envelope2
      in jdiv (jadd envelopeCorrelation (Num 1)) (Num 2))"

definition spectralMatch :: "real list \<Rightarrow> real list \<Rightarrow> real \<Rightarrow> jsnum" where
  "spectralMatch normalized1 normalized2 rate =
     (let centroid1 = calculateSpectralCentroid normalized1 rate;
          centroid2 = calculateSpectralCentroid normalized2 rate;
          centroidDiff = jabs (jsub centroid1 centroid2);
          maxCentroid = jmax (jmax centroid1 centroid2) (Num 1)
      in jsub (Num 1) (jmin (Num 1) (jdiv centroidDiff maxCentroid)))"

definition energyMatch :: "real list \<Rightarrow> real list \<Rightarrow> nat \<Rightarrow> jsnum" where
  "energyMatch normalized1 normalized2 minLength =
     (let totalEnergy1 = jsum (\<lambda>i. jmul (Num (normalized1 ! i)) (Num (normalized1 ! i)))
                              [0 ..< minLength];
          totalEnergy2 = jsum (\<lambda>i. jmul (Num (normalized2 ! i)) (Num (normalized2 ! i)))
                              [0 ..< minLength];
          rms1 = jsqrt (jdiv totalEnergy1 (Num (real minLength)));
          rms2 = jsqrt (jdiv totalEnergy2 (Num (real minLength)))
      in jdiv (jmin rms1 rms2) (jmax (jmax rms1 rms2) (fl (1 / 1000))))"

definition durationMatch :: "AudioBuffer \<Rightarrow> AudioBuffer \<Rightarrow> jsnum" where
  "durationMatch buffer1 buffer2 =
     (let dur1 = duration buffer1;
          dur2 = duration buffer2
      in jsub (Num 1) (jdiv (jabs (jsub dur1 dur2)) (jmax dur1 dur2)))"

subsection \<open>Fusion\<close>

definition rawScore :: "jsnum \<Rightarrow> jsnum \<Rightarrow> jsnum \<Rightarrow> jsnum \<Rightarrow> jsnum \<Rightarrow> jsnum \<Rightarrow> jsnum" where
  "rawScore mfcc pitch envelope spectral energy dur =
     jadd (jadd (jadd (jadd (jadd
       (jmul mfcc (fl (35 / 100)))
       (jmul pitch (fl (25 / 100))))
       (jmul envelope (fl (15 / 100))))
       (jmul spectral (fl (10 / 100))))
       (jmul energy (fl (10 / 100))))
       (jmul dur (fl (5 / 100)))"

definition adjustedScore :: "jsnum \<Rightarrow> jsnum" where
  "adjustedScore raw =
     (let adjusted =
        (if jgt raw (fl (7 / 10))
         then jadd (Num 50) (jmul (jsub raw (fl (7 / 10))) (fl (16667 / 100)))
         else if jgt raw (fl (4 / 10))
         then jadd (Num 20) (jmul (jsub raw (fl (4 / 10))) (Num 100))
         else jmul raw (Num 50))
      in jmax (Num 0) (jmin (Num 100) adjusted))"

definition roundedScore :: "jsnum \<Rightarrow> jsnum" where
  "roundedScore raw = jround (adjustedScore raw)"

definition fusion :: "jsnum \<Rightarrow> jsnum \<Rightarrow> jsnum \<Rightarrow> jsnum \<Rightarrow> jsnum \<Rightarrow> jsnum \<Rightarrow> jsnum" where
  "fusion mfcc pitch envelope spectral energy dur =
     roundedScore (rawScore mfcc pitch envelope spectral energy dur)"

subsection \<open>The comparison\<close>

text \<open>
  The fields of the audio manager that the comparison reads. The \<^verbatim>\<open>try\<close> block either
  throws or reaches the call of the completion callback with the rounded score; the
  \<^verbatim>\<open>catch\<close> block turns every exception into the score 30. Console output is left
  out, and the callback is taken not to throw.
\<close>

record AudioManager =
  player1OriginalBuffer :: "AudioBuffer option"
  player1ReversedBuffer :: "AudioBuffer option"
  player2AttemptBuffer :: "AudioBuffer option"
  player2ReverseForwardBuffer :: "AudioBuffer option"

definition score :: "Math \<Rightarrow> AudioBuffer \<Rightarrow> AudioBuffer \<Rightarrow> real list \<Rightarrow> real list \<Rightarrow> nat \<Rightarrow> jsnum" where
  "score math buffer1 buffer2 normalized1 normalized2 minLength =
     (let rate = sampleRate buffer1
      in fusion (mfccSimilarity math normalized1 normalized2 rate)
                (pitchMatch normalized1 normalized2 rate)
                (envelopeMatch normalized1 normalized2)
                (spectralMatch normalized1 normalized2 rate)
                (energyMatch normalized1 normalized2 minLength)
                (durationMatch buffer1 buffer2))"

definition tryBlock :: "Math \<Rightarrow> AudioManager \<Rightarrow> jsnum js" where
  "tryBlock math this =
     (case (player1OriginalBuffer this, player2ReverseForwardBuffer this) of
        (Some buffer1, Some buffer2) \<Rightarrow>
          js_bind (getChannelData buffer1 0) (\<lambda>data1.
          js_bind (getChannelData buffer2 0) (\<lambda>data2.
          js_bind (f32_length data1) (\<lambda>len1.
          js_bind (f32_length data2) (\<lambda>len2.
          let minLength = min len1 len2 in
          js_bind (newFloat32Array minLength) (\<lambda>normalized1.
          js_bind (newFloat32Array minLength) (\<lambda>normalized2.
          js_bind (f32_slice data1 0 minLength) (\<lambda>slice1.
          js_bind (f32_set normalized1 slice1) (\<lambda>_.
          js_bind (f32_slice data2 0 minLength) (\<lambda>slice2.
          js_bind (f32_set normalized2 slice2) (\<lambda>_.
          js_bind (f32_contents normalized1) (\<lambda>samples1.
          js_bind (f32_contents normalized2) (\<lambda>samples2.
            js_return (score math buffer1 buffer2 samples1 samples2 minLength)))))))))))))
      | _ \<Rightarrow> js_throw MissingBuffers)"

text \<open>
  The result: the arguments the completion callback was called with, in order (none when
  no callback was passed), and the store afterwards.
\<close>

definition compareAudio :: "Math \<Rightarrow> AudioManager \<Rightarrow> bool \<Rightarrow> heap \<Rightarrow> jsnum list \<times> heap" where
  "compareAudio math this onComplete h =
     (case tryBlock math this h of
        (Inr rounded, h') \<Rightarrow> (if onComplete then [rounded] else [], h')
      | (Inl e, h') \<Rightarrow> (if onComplete then [Num 30] else [], h'))"

section \<open>The fusion as the specification words it\<close>

text \<open>
  The weighted sum, the three-branch remap, the clamp and the rounding as the
  specification words them, in the arithmetic of the code; the slope of the upper branch
  is a parameter. No branch of the remap holds a raw score that is not a number.
\<close>

definition spec_raw :: "jsnum \<Rightarrow> jsnum \<Rightarrow> jsnum \<Rightarrow> jsnum \<Rightarrow> jsnum \<Rightarrow> jsnum \<Rightarrow> jsnum" where
  "spec_raw timbre pitch envelope centroid energy dur =
     jadd (jadd (jadd (jadd (jadd
       (jmul (fl (35 / 100)) timbre)
       (jmul (fl (25 / 100)) pitch))
       (jmul (fl (15 / 100)) envelope))
       (jmul (fl (10 / 100)) centroid))
       (jmul (fl (10 / 100)) energy))
       (jmul (fl (5 / 100)) dur)"

definition spec_remap :: "real \<Rightarrow> jsnum \<Rightarrow> jsnum" where
  "spec_remap slope raw =
     (if jgt raw (fl (7 / 10)) then jadd (Num 50) (jmul (jsub raw (fl (7 / 10))) (fl slope))
      else if jgt raw (fl (4 / 10)) \<and> jle raw (fl (7 / 10))
      then jadd (Num 20) (jmul (jsub raw (fl (4 / 10))) (Num 100))
      else if jle raw (fl (4 / 10)) then jmul raw (Num 50)
      else NaN)"

definition spec_clamp :: "jsnum \<Rightarrow> jsnum" where
  "spec_clamp x = (if jless x (Num 0) then Num 0 else if jgt x (Num 100) then Num 100 else x)"

definition spec_score :: "real \<Rightarrow> jsnum \<Rightarrow> jsnum" where
  "spec_score slope raw = jround (spec_clamp (spec_remap slope raw))"

section \<open>An implementation of the approximated functions\<close>

text \<open>
  One implementation of \<^verbatim>\<open>Math.log\<close>, \<^verbatim>\<open>Math.log10\<close> and \<^verbatim>\<open>Math.pow\<close>, for the examples:
  the exact result, rounded. It is given on the arguments that the timbre extractor
  passes when the sample rate is a positive number (a finite number for the logarithms,
  a positive base and a finite exponent for the power).
\<close>

fun jlog :: "real \<Rightarrow> jsnum \<Rightarrow> jsnum" where
  "jlog b (Num a) = (if 0 < a then fl (log b a) else if a = 0 then NInf else NaN)"
| "jlog b PInf = PInf"
| "jlog b NInf = NaN"
| "jlog b NaN = NaN"

fun jpow :: "jsnum \<Rightarrow> jsnum \<Rightarrow> jsnum" where
  "jpow (Num a) (Num b) = (if 0 < a then fl (a powr b) else NaN)"
| "jpow _ _ = NaN"

definition Math_rounded :: Math where
  "Math_rounded = \<lparr>Math_log = jlog (exp 1), Math_log10 = jlog 10, Math_pow = jpow\<rparr>"

text \<open>
  What the theorems below ask of \<^verbatim>\<open>Math.log\<close>: on the sum of a band energy and the
  floor \<open>1e-10\<close> it returns a number of magnitude at most 720 (the logarithm of the
  largest double is below 710), and on the floor itself a number from \<open>-28\<close> to \<open>-20\<close>
  (the logarithm of \<open>1e-10\<close> is about \<open>-23.03\<close>).
\<close>

definition math_ok :: "Math \<Rightarrow> bool" where
  "math_ok math \<longleftrightarrow>
     (\<forall>a. 9 / 10 ^ 11 \<le> a \<and> a \<le> pow2 1000 \<longrightarrow>
          (\<exists>v. Math_log math (Num a) = Num v \<and> \<bar>v\<bar> \<le> 720)) \<and>
     (\<exists>l. Math_log math (fl (1 / 10 ^ 10)) = Num l \<and> - 28 \<le> l \<and> l \<le> - 20)"

section \<open>Example input\<close>

text \<open>
  An example waveform for the theorems below: 3073 samples, all zero but two unit impulses at
  the positions 0 and 100.
\<close>

definition impulse_pair :: "real list" where
  "impulse_pair = map (\<lambda>i. if i = 0 \<or> i = 100 then 1 else 0) [0 ..< 3073]"

section \<open>Powers of two and rounding\<close>

lemma pow2_powr: "pow2 e = 2 powr (of_int e)"
proof (cases "0 \<le> e")
  case True
  then have "(2::real) powr (of_int e) = 2 powr (real (nat e))" by simp
  also have "\<dots> = 2 ^ nat e" by (rule powr_realpow) simp
  finally show ?thesis using True by (simp add: pow2_def)
next
  case False
  then have "(2::real) powr (of_int e) = 2 powr (- real (nat (- e)))" by simp
  also have "\<dots> = 1 / (2 powr (real (nat (- e))))" by (simp add: powr_minus divide_inverse)
  also have "2 powr (real (nat (- e))) = (2::real) ^ nat (- e)" by (rule powr_realpow) simp
  finally show ?thesis using False by (simp add: pow2_def)
qed

lemma pow2_pos [simp]: "0 < pow2 e"
  by (simp add: pow2_powr)

lemma pow2_nonneg [simp]: "0 \<le> pow2 e"
  by (simp add: pow2_powr)

lemma pow2_not_le_0 [simp]: "\<not> pow2 e \<le> 0"
  using pow2_pos [of e] by (simp only: not_le)

lemma pow2_neq_0 [simp]: "pow2 e \<noteq> 0"
  using pow2_pos [of e] by (simp only: less_imp_neq [THEN not_sym] not_False_eq_True)

lemma pow2_add: "pow2 (a + b) = pow2 a * pow2 b"
  by (simp add: pow2_powr powr_add)

lemma pow2_diff: "pow2 (a - b) = pow2 a / pow2 b"
  by (simp add: pow2_powr powr_diff)

lemma pow2_0 [simp]: "pow2 0 = 1"
  by (simp add: pow2_def)

lemma pow2_1 [simp]: "pow2 1 = 2"
  by (simp add: pow2_def)

lemma pow2_le_iff [simp]: "pow2 a \<le> pow2 b \<longleftrightarrow> a \<le> b"
  by (simp add: pow2_powr)

lemma pow2_less_iff [simp]: "pow2 a < pow2 b \<longleftrightarrow> a < b"
  by (simp add: pow2_powr)

lemma pow2_Suc: "pow2 (e + 1) = 2 * pow2 e"
  by (simp add: pow2_add)

lemma pow2_nat: "pow2 (int n) = 2 ^ n"
  by (simp add: pow2_def)

lemma expo_unique:
  assumes "pow2 e \<le> \<bar>x\<bar>" "\<bar>x\<bar> < pow2 (e + 1)"
  shows "\<lfloor>log 2 \<bar>x\<bar>\<rfloor> = e"
proof -
  have pos: "0 < \<bar>x\<bar>"
    using assms(1) pow2_pos [of e] by linarith
  have "of_int e \<le> log 2 \<bar>x\<bar>"
    using assms(1) pos by (simp add: pow2_powr le_log_iff)
  moreover have "log 2 \<bar>x\<bar> < of_int e + 1"
    using assms(2) pos by (simp add: pow2_powr log_less_iff)
  ultimately show ?thesis
    by (intro floor_unique) simp_all
qed

lemma expo_bounds:
  assumes "x \<noteq> 0"
  shows "pow2 \<lfloor>log 2 \<bar>x\<bar>\<rfloor> \<le> \<bar>x\<bar>" "\<bar>x\<bar> < pow2 (\<lfloor>log 2 \<bar>x\<bar>\<rfloor> + 1)"
proof -
  have pos: "0 < \<bar>x\<bar>" using assms by simp
  have "of_int \<lfloor>log 2 \<bar>x\<bar>\<rfloor> \<le> log 2 \<bar>x\<bar>" by simp
  then show "pow2 \<lfloor>log 2 \<bar>x\<bar>\<rfloor> \<le> \<bar>x\<bar>"
    using pos by (simp only: pow2_powr le_log_iff [symmetric] one_less_numeral_iff num.simps simp_thms semiring_norm)
  have "log 2 \<bar>x\<bar> < of_int (\<lfloor>log 2 \<bar>x\<bar>\<rfloor> + 1)" by linarith
  then show "\<bar>x\<bar> < pow2 (\<lfloor>log 2 \<bar>x\<bar>\<rfloor> + 1)"
    using pos by (simp only: pow2_powr log_less_iff one_less_numeral_iff num.simps simp_thms semiring_norm)
qed

lemma rhe_unique:
  assumes "\<bar>y - of_int m\<bar> < 1 / 2"
  shows "rhe y = m"
proof -
  have "of_int m - 1 \<le> y" "y < of_int m + 1"
    using assms by linarith+
  then have "m - 1 \<le> \<lfloor>y\<rfloor>" "\<lfloor>y\<rfloor> < m + 1"
    by (simp_all add: le_floor_iff floor_le_iff)
  then have "\<lfloor>y\<rfloor> = m \<or> \<lfloor>y\<rfloor> = m - 1"
    by linarith
  then show ?thesis
  proof
    assume f: "\<lfloor>y\<rfloor> = m"
    have "y - of_int m < 1 / 2" using assms by linarith
    then show ?thesis by (simp add: rhe_def f)
  next
    assume f: "\<lfloor>y\<rfloor> = m - 1"
    have "1 / 2 < y - (of_int m - 1)" using assms by linarith
    then have g: "1 / 2 < y - of_int (m - 1)" by simp
    then have "\<not> y - of_int (m - 1) < 1 / 2" by linarith
    then show ?thesis using g by (simp add: rhe_def f Let_def)
  qed
qed

lemma rhe_of_int [simp]: "rhe (of_int m) = m"
  by (rule rhe_unique) simp

lemma rhe_0 [simp]: "rhe 0 = 0"
  using rhe_of_int [of 0] by simp

lemma rhe_err: "\<bar>of_int (rhe y) - y\<bar> \<le> 1 / 2"
proof -
  have "of_int \<lfloor>y\<rfloor> \<le> y" "y < of_int \<lfloor>y\<rfloor> + 1" by linarith+
  then show ?thesis
    by (auto simp: rhe_def Let_def abs_le_iff)
qed

lemma rhe_tie_down:
  assumes "y = of_int m + 1 / 2" "even m"
  shows "rhe y = m"
proof -
  have "\<lfloor>y\<rfloor> = m" using assms(1) by (simp add: floor_eq_iff)
  then show ?thesis using assms by (simp add: rhe_def)
qed

lemma rhe_tie_up:
  assumes "y = of_int m - 1 / 2" "even m"
  shows "rhe y = m"
proof -
  have f: "\<lfloor>y\<rfloor> = m - 1" using assms(1) by (simp add: floor_eq_iff)
  have o: "odd (m - 1)" using assms(2) by simp
  have d: "y - of_int (m - 1) = 1 / 2" using assms(1) by simp
  show ?thesis
    unfolding rhe_def f Let_def d using o by simp
qed

lemma rhe_nonneg: "0 \<le> y \<Longrightarrow> 0 \<le> rhe y"
  by (auto simp: rhe_def Let_def)

lemma rhe_nonpos:
  assumes "y \<le> 0"
  shows "rhe y \<le> 0"
proof (cases "\<lfloor>y\<rfloor> = 0")
  case True
  then have "0 \<le> y" by (metis of_int_0 of_int_floor_le)
  then have "y = 0" using assms by simp
  then show ?thesis by simp
next
  case False
  moreover have "\<lfloor>y\<rfloor> \<le> 0" using assms by (simp add: floor_le_iff)
  ultimately have "\<lfloor>y\<rfloor> + 1 \<le> 0" by linarith
  then show ?thesis by (auto simp: rhe_def Let_def)
qed

lemma fl_0 [simp]: "fl 0 = Num 0"
  by (simp add: fl_def)

text \<open>
  How a rounding is checked: the binade of the number, and a double of that binade that
  lies nearer than half a unit in the last place.
\<close>

lemma fl_eqI:
  assumes "pow2 e \<le> \<bar>x\<bar>" "\<bar>x\<bar> < pow2 (e + 1)" "- 1022 \<le> e"
    and "c = of_int m * pow2 (e - 52)" "\<bar>x - c\<bar> < pow2 (e - 53)" "\<bar>c\<bar> < pow2 1024"
  shows "fl x = Num c"
proof -
  have x0: "x \<noteq> 0"
    using assms(1) by auto
  have ex: "\<lfloor>log 2 \<bar>x\<bar>\<rfloor> = e"
    using assms(1,2) by (rule expo_unique)
  have mx: "max e (- 1022) = e"
    using assms(3) by simp
  define q where "q = pow2 (e - 52)"
  have q: "0 < q" by (simp add: q_def)
  have h: "pow2 (e - 53) = q / 2"
    using pow2_Suc [of "e - 53"] by (simp add: q_def)
  have "\<bar>x / q - of_int m\<bar> = \<bar>x - c\<bar> / q"
    using q by (simp add: assms(4) q_def [symmetric] field_simps abs_mult [symmetric] abs_divide [symmetric] del: abs_mult)
  also have "\<dots> < (q / 2) / q"
    using assms(5) q unfolding h by (intro divide_strict_right_mono) simp_all
  also have "\<dots> = 1 / 2" using q by simp
  finally have "rhe (x / q) = m"
    by (rule rhe_unique)
  then show ?thesis
    using x0 assms(6) by (simp add: fl_def ex mx q_def [symmetric] Let_def assms(4))
qed

text \<open>The rounding error of a number that does not overflow.\<close>

lemma fl_bound:
  assumes "\<bar>x\<bar> \<le> pow2 1023"
  shows "\<exists>r. fl x = Num r \<and> \<bar>r - x\<bar> \<le> \<bar>x\<bar> / 2 ^ 53 + pow2 (- 1075)
             \<and> (pow2 (- 1022) \<le> \<bar>x\<bar> \<longrightarrow> \<bar>r - x\<bar> \<le> \<bar>x\<bar> / 2 ^ 53)
             \<and> (0 \<le> x \<longrightarrow> 0 \<le> r) \<and> (x \<le> 0 \<longrightarrow> r \<le> 0)"
proof (cases "x = 0")
  case True
  then show ?thesis by simp
next
  case False
  define e where "e = \<lfloor>log 2 \<bar>x\<bar>\<rfloor>"
  define q where "q = pow2 (max e (- 1022) - 52)"
  define r where "r = of_int (rhe (x / q)) * q"
  have q: "0 < q" by (simp add: q_def)
  have lo: "pow2 e \<le> \<bar>x\<bar>" and hi: "\<bar>x\<bar> < pow2 (e + 1)"
    using expo_bounds [OF False] by (simp_all add: e_def)
  have "\<bar>r - x\<bar> = \<bar>of_int (rhe (x / q)) - x / q\<bar> * q"
    using q by (simp add: r_def field_simps abs_mult [symmetric] del: abs_mult)
  also have "\<dots> \<le> (1 / 2) * q"
    using q rhe_err [of "x / q"] by (intro mult_right_mono) simp_all
  finally have err: "\<bar>r - x\<bar> \<le> q / 2" by simp
  have qb: "q / 2 \<le> \<bar>x\<bar> / 2 ^ 53 + pow2 (- 1075)"
  proof (cases "- 1022 \<le> e")
    case True
    then have "q = pow2 e / 2 ^ 52"
      by (simp add: q_def pow2_diff) (simp add: pow2_def)
    then have "q / 2 = pow2 e / 2 ^ 53" by simp
    also have "\<dots> \<le> \<bar>x\<bar> / 2 ^ 53"
      using lo by (intro divide_right_mono) simp_all
    finally show ?thesis
      using pow2_pos [of "- 1075"] by linarith
  next
    case False
    then have "q = pow2 (- 1074)" by (simp add: q_def)
    then have "q / 2 = pow2 (- 1075)"
      using pow2_Suc [of "- 1075"] by simp
    then show ?thesis by simp
  qed
  have qn: "q / 2 \<le> \<bar>x\<bar> / 2 ^ 53" if "pow2 (- 1022) \<le> \<bar>x\<bar>"
  proof -
    have "pow2 (- 1022) < pow2 (e + 1)" using that hi by linarith
    then have "- 1022 \<le> e" by simp
    then have "q = pow2 e / 2 ^ 52"
      by (simp add: q_def pow2_diff) (simp add: pow2_def)
    then have "q / 2 = pow2 e / 2 ^ 53" by simp
    also have "\<dots> \<le> \<bar>x\<bar> / 2 ^ 53"
      using lo by (intro divide_right_mono) simp_all
    finally show ?thesis .
  qed
  have "\<bar>r\<bar> \<le> \<bar>x\<bar> + \<bar>r - x\<bar>" by linarith
  also have "\<dots> \<le> pow2 1023 + (pow2 1023 / 2 ^ 53 + pow2 (- 1075))"
    using err qb assms by (intro add_mono) (auto intro: order_trans divide_right_mono)
  also have "\<dots> < pow2 1024"
    by (simp add: pow2_def)
  finally have fin: "\<not> pow2 1024 \<le> \<bar>r\<bar>" by simp
  have fl: "fl x = Num r"
    using False fin by (simp add: fl_def Let_def e_def [symmetric] q_def [symmetric] r_def [symmetric])
  have "0 \<le> x \<Longrightarrow> 0 \<le> r"
    using q rhe_nonneg [of "x / q"] by (simp add: r_def)
  moreover have "x \<le> 0 \<Longrightarrow> r \<le> 0"
    using q rhe_nonpos [of "x / q"] by (simp add: r_def divide_nonpos_pos mult_nonpos_nonneg)
  moreover have "pow2 (- 1022) \<le> \<bar>x\<bar> \<Longrightarrow> \<bar>r - x\<bar> \<le> \<bar>x\<bar> / 2 ^ 53"
    using err qn by linarith
  ultimately show ?thesis
    using fl err qb by (intro exI [of _ r]) auto
qed

lemma fl_pos:
  assumes "pow2 (- 1022) \<le> x" "x \<le> pow2 1023"
  shows "\<exists>r. fl x = Num r \<and> 0 < r \<and> \<bar>r - x\<bar> \<le> x / 2 ^ 53"
proof -
  have x: "0 < x" "\<bar>x\<bar> = x"
    using assms(1) pow2_pos [of "- 1022"] by linarith+
  obtain r where r: "fl x = Num r" "\<bar>r - x\<bar> \<le> x / 2 ^ 53"
    using fl_bound [of x] assms x by auto
  have "x / 2 ^ 53 < x"
    using x(1) by (simp add: field_simps)
  then have "0 < r" using r(2) by linarith
  then show ?thesis using r by blast
qed

text \<open>A number of 53 bits that lies in the range of the doubles is a double.\<close>

lemma fl_exact:
  assumes "x = of_int m * pow2 k" "\<bar>m\<bar> < 2 ^ 53" "- 1074 \<le> k" "\<bar>x\<bar> < pow2 1024"
  shows "fl x = Num x"
proof (cases "x = 0")
  case True
  then show ?thesis by simp
next
  case False
  define e where "e = \<lfloor>log 2 \<bar>x\<bar>\<rfloor>"
  define E where "E = max e (- 1022) - 52"
  have lo: "pow2 e \<le> \<bar>x\<bar>" and hi: "\<bar>x\<bar> < pow2 (e + 1)"
    using expo_bounds [OF False] by (simp_all add: e_def)
  have "\<bar>x\<bar> = \<bar>of_int m\<bar> * pow2 k"
    by (simp add: assms(1) abs_mult)
  also have "\<dots> < 2 ^ 53 * pow2 k"
    using assms(2) by (intro mult_strict_right_mono) (simp_all flip: of_int_abs)
  also have "\<dots> = pow2 (k + 53)"
    by (simp add: pow2_add) (simp add: pow2_def)
  finally have "pow2 e < pow2 (k + 53)" using lo by linarith
  then have "e < k + 53" by simp
  then have Ek: "E \<le> k" using assms(3) by (simp add: E_def)
  define j where "j = nat (k - E)"
  have pk: "pow2 k = 2 ^ j * pow2 E"
  proof -
    have "pow2 k = pow2 (int j + E)" using Ek by (simp add: j_def)
    also have "\<dots> = pow2 (int j) * pow2 E" by (rule pow2_add)
    finally show ?thesis by (simp add: pow2_def)
  qed
  then have "x / pow2 E = of_int (m * 2 ^ j)"
    by (simp add: assms(1))
  then have "rhe (x / pow2 E) = m * 2 ^ j"
    by (simp only: rhe_of_int)
  then have "of_int (rhe (x / pow2 E)) * pow2 E = x"
    using pk by (simp add: assms(1))
  then show ?thesis
    using False assms(4) by (simp add: fl_def Let_def e_def [symmetric] E_def [symmetric])
qed

lemma rhe_abs_le:
  assumes "\<bar>y\<bar> \<le> of_int n"
  shows "\<bar>rhe y\<bar> \<le> n"
proof -
  have "\<bar>of_int (rhe y) :: real\<bar> \<le> \<bar>y\<bar> + 1 / 2"
    using rhe_err [of y] by linarith
  then have "\<bar>of_int (rhe y) :: real\<bar> < of_int n + 1"
    using assms by linarith
  then have "real_of_int \<bar>rhe y\<bar> < of_int (n + 1)"
    by simp
  then have "\<bar>rhe y\<bar> < n + 1"
    by (simp only: of_int_less_iff)
  then show ?thesis by simp
qed

text \<open>Rounding returns a double: rounding it again changes nothing.\<close>

lemma fl_idem:
  assumes "fl x = Num r"
  shows "fl r = Num r"
proof (cases "x = 0")
  case True
  then show ?thesis using assms by simp
next
  case False
  define e where "e = \<lfloor>log 2 \<bar>x\<bar>\<rfloor>"
  define E where "E = max e (- 1022) - 52"
  define m where "m = rhe (x / pow2 E)"
  have lo: "pow2 e \<le> \<bar>x\<bar>" and hi: "\<bar>x\<bar> < pow2 (e + 1)"
    using expo_bounds [OF False] by (simp_all add: e_def)
  have r: "r = of_int m * pow2 E" and fin: "\<bar>r\<bar> < pow2 1024"
    using assms False
    by (auto simp: fl_def Let_def e_def [symmetric] E_def [symmetric] m_def [symmetric]
        split: if_splits)
  have "pow2 (e + 1) \<le> pow2 (E + 53)"
    by (simp add: E_def)
  then have "\<bar>x\<bar> < pow2 (E + 53)"
    using hi by linarith
  also have "\<dots> = 2 ^ 53 * pow2 E"
    by (simp add: pow2_add mult.commute) (simp add: pow2_def)
  finally have "\<bar>x\<bar> / pow2 E < 2 ^ 53"
    by (simp add: pos_divide_less_eq)
  then have "\<bar>x / pow2 E\<bar> \<le> of_int (2 ^ 53)"
    by simp
  then have m53: "\<bar>m\<bar> \<le> 2 ^ 53"
    unfolding m_def by (rule rhe_abs_le)
  have E: "- 1074 \<le> E" by (simp add: E_def)
  show ?thesis
  proof (cases "\<bar>m\<bar> = 2 ^ 53")
    case False
    then have "\<bar>m\<bar> < 2 ^ 53" using m53 by simp
    then show ?thesis
      using fl_exact [OF r _ E fin] by simp
  next
    case True
    then have "m = 2 ^ 53 \<or> m = - (2 ^ 53)" by linarith
    then have "r = of_int (sgn m) * pow2 (E + 53)"
      by (auto simp: r pow2_add) (simp_all add: pow2_def)
    moreover have "\<bar>sgn m\<bar> < 2 ^ 53" by (simp add: abs_sgn_eq)
    moreover have "- 1074 \<le> E + 53" using E by simp
    ultimately show ?thesis
      using fl_exact [OF _ _ _ fin] by blast
  qed
qed

lemma fl_1 [simp]: "fl 1 = Num 1"
  by (rule fl_exact [where m = 1 and k = 0]) (simp_all add: pow2_def)

lemma fl_half [simp]: "fl (1 / 2) = Num (1 / 2)"
  by (rule fl_exact [where m = 1 and k = "- 1"]) (simp_all add: pow2_def)

text \<open>The integers up to \<open>pow2 53\<close> are doubles.\<close>

lemma fl_of_int:
  assumes "\<bar>n\<bar> \<le> 2 ^ 53"
  shows "fl (of_int n) = Num (of_int n)"
proof (cases "\<bar>n\<bar> = 2 ^ 53")
  case False
  then have "\<bar>n\<bar> < 2 ^ 53" using assms by simp
  moreover have "\<bar>real_of_int n\<bar> < pow2 1024"
  proof -
    have "\<bar>real_of_int n\<bar> \<le> 2 ^ 53" using assms by (simp flip: of_int_abs)
    also have "\<dots> < pow2 1024" by (simp add: pow2_def)
    finally show ?thesis .
  qed
  ultimately show ?thesis
    by (intro fl_exact [where m = n and k = 0]) simp_all
next
  case True
  then have "n = 2 ^ 53 \<or> n = - (2 ^ 53)" by linarith
  then have "real_of_int n = of_int (sgn n) * pow2 53"
    by (auto simp: pow2_def)
  moreover have "\<bar>real_of_int n\<bar> < pow2 1024"
    using True by (simp add: pow2_def flip: of_int_abs)
  ultimately show ?thesis
    by (intro fl_exact [where m = "sgn n" and k = 53]) (simp_all add: abs_sgn_eq)
qed

lemma fl_of_nat:
  assumes "n \<le> 2 ^ 53"
  shows "fl (real n) = Num (real n)"
  using fl_of_int [of "int n"] assms by simp

lemma fl_numeral [simp]:
  "numeral k \<le> (2 ^ 53 :: nat) \<Longrightarrow> fl (numeral k) = Num (numeral k)"
  using fl_of_nat [of "numeral k"] by simp

lemma fl_neg_numeral [simp]:
  "numeral k \<le> (2 ^ 53 :: nat) \<Longrightarrow> fl (- numeral k) = Num (- numeral k)"
  using fl_of_int [of "- numeral k"] by simp

lemma fl_eqI_tie:
  assumes "pow2 e \<le> \<bar>x\<bar>" "\<bar>x\<bar> < pow2 (e + 1)" "- 1022 \<le> e"
    and "c = of_int m * pow2 (e - 52)" "even m" "\<bar>x - c\<bar> = pow2 (e - 53)"
    and "\<bar>c\<bar> < pow2 1024"
  shows "fl x = Num c"
proof -
  have x0: "x \<noteq> 0"
    using assms(1) by auto
  have ex: "\<lfloor>log 2 \<bar>x\<bar>\<rfloor> = e"
    using assms(1,2) by (rule expo_unique)
  have mx: "max e (- 1022) = e"
    using assms(3) by simp
  define q where "q = pow2 (e - 52)"
  have q: "0 < q" by (simp add: q_def)
  have h: "pow2 (e - 53) = q / 2"
    using pow2_Suc [of "e - 53"] by (simp add: q_def)
  have "x - c = q / 2 \<or> x - c = - (q / 2)"
    using assms(6) unfolding h by linarith
  then have "x / q = of_int m + 1 / 2 \<or> x / q = of_int m - 1 / 2"
    using q by (auto simp: assms(4) q_def [symmetric] field_simps)
  then have "rhe (x / q) = m"
    using assms(5) rhe_tie_down [of "x / q" m] rhe_tie_up [of "x / q" m] by blast
  then show ?thesis
    using x0 assms(7) by (simp add: fl_def ex mx q_def [symmetric] Let_def assms(4))
qed




text \<open>How the rounding of a square root is checked: by squares.\<close>

lemma fl_sqrt_eqI:
  assumes "c = of_int m * pow2 (e - 52)" "- 1022 \<le> e" "\<bar>c\<bar> < pow2 1024"
    and "pow2 e * pow2 e \<le> a" "a < pow2 (e + 1) * pow2 (e + 1)"
    and "0 \<le> c - pow2 (e - 53)"
    and "(c - pow2 (e - 53)) * (c - pow2 (e - 53)) < a"
    and "a < (c + pow2 (e - 53)) * (c + pow2 (e - 53))"
  shows "fl (sqrt a) = Num c"
proof -
  have a0: "0 \<le> a"
    using assms(4) mult_nonneg_nonneg [OF pow2_nonneg pow2_nonneg, of e e] by linarith
  have 1: "pow2 e \<le> sqrt a"
    using assms(4) by (intro real_le_rsqrt) (simp add: power2_eq_square)
  have 2: "sqrt a < pow2 (e + 1)"
    using assms(5) by (intro real_less_lsqrt) (simp_all add: power2_eq_square)
  have 3: "c - pow2 (e - 53) < sqrt a"
    using assms(7) by (intro real_less_rsqrt) (simp add: power2_eq_square)
  have "0 \<le> c + pow2 (e - 53)"
    using assms(6) pow2_pos [of "e - 53"] by linarith
  then have 4: "sqrt a < c + pow2 (e - 53)"
    using assms(8) by (intro real_less_lsqrt) (simp_all add: power2_eq_square)
  have s: "\<bar>sqrt a\<bar> = sqrt a"
    using a0 by simp
  have 5: "\<bar>sqrt a - c\<bar> < pow2 (e - 53)"
    using 3 4 by linarith
  show ?thesis
    using 1 2 5 assms(1,2,3)
    by (intro fl_eqI [where e = e and m = m]) (simp_all only: s)
qed

section \<open>The store around the comparison\<close>

lemma tryBlock_missing:
  assumes "player1OriginalBuffer this = None \<or> player2ReverseForwardBuffer this = None"
  shows "tryBlock math this h = (Inl MissingBuffers, h)"
  using assms
  by (auto simp: tryBlock_def js_throw_def split: option.splits)

lemma tryBlock_no_channel:
  assumes "player1OriginalBuffer this = Some b1" "player2ReverseForwardBuffer this = Some b2"
    and "\<not> (0 < numberOfChannels b1 \<and> 0 < length (channelData b1)
            \<and> 0 < numberOfChannels b2 \<and> 0 < length (channelData b2))"
  shows "tryBlock math this h = (Inl IndexSizeError, h)"
  using assms
  by (auto simp: tryBlock_def js_throw_def js_bind_def js_return_def getChannelData_def)

text \<open>
  With both buffers present and their first channels allocated, the block copies the
  common prefix of the two channels into fresh arrays and scores the copies.
\<close>

lemma tryBlock_present:
  fixes h :: heap and b1 b2 :: AudioBuffer
  defines "data1 \<equiv> arr h (channelData b1 ! 0)" and "data2 \<equiv> arr h (channelData b2 ! 0)"
  defines "minLength \<equiv> min (length data1) (length data2)"
  assumes "player1OriginalBuffer this = Some b1" "player2ReverseForwardBuffer this = Some b2"
    and "0 < numberOfChannels b1" "0 < length (channelData b1)"
    and "0 < numberOfChannels b2" "0 < length (channelData b2)"
    and "channelData b1 ! 0 < length h" "channelData b2 ! 0 < length h"
  shows "tryBlock math this h =
     (Inr (score math b1 b2 (take minLength data1) (take minLength data2) minLength),
      h @ [take minLength data1, take minLength data2,
           take minLength data1, take minLength data2])"
proof (cases "length data1 \<le> length data2")
  case True
  then have m: "minLength = length data1"
    by (simp add: minLength_def)
  show ?thesis
    unfolding m using assms(4-) True
    apply (simp add: tryBlock_def js_bind_def js_return_def getChannelData_def
       f32_length_def f32_slice_def f32_set_def newFloat32Array_def f32_contents_def Let_def
       data1_def [symmetric] data2_def [symmetric] min_absorb1)
    apply (simp add: arr_def nth_append list_update_append data1_def data2_def)
    done
next
  case False
  then have m: "minLength = length data2"
    by (simp add: minLength_def)
  show ?thesis
    unfolding m using assms(4-) False
    apply (simp add: tryBlock_def js_bind_def js_return_def getChannelData_def
       f32_length_def f32_slice_def f32_set_def newFloat32Array_def f32_contents_def Let_def
       data1_def [symmetric] data2_def [symmetric] min_absorb2)
    apply (simp add: arr_def nth_append list_update_append data1_def data2_def)
    done
qed

lemma tryBlock_dangling:
  assumes "player1OriginalBuffer this = Some b1" "player2ReverseForwardBuffer this = Some b2"
    and "0 < numberOfChannels b1" "0 < length (channelData b1)"
    and "0 < numberOfChannels b2" "0 < length (channelData b2)"
    and "\<not> channelData b1 ! 0 < length h \<or> \<not> channelData b2 ! 0 < length h"
  shows "\<exists>r. tryBlock math this h = (r, h @ [[], [], [], []])"
proof -
  have m: "min (length (arr h (channelData b1 ! 0))) (length (arr h (channelData b2 ! 0))) = 0"
    using assms(7) by (auto simp: arr_def)
  show ?thesis
    using assms(1-6) m
    apply (simp add: tryBlock_def js_bind_def js_return_def getChannelData_def
      f32_length_def f32_slice_def f32_set_def newFloat32Array_def f32_contents_def Let_def)
    apply (simp add: arr_def nth_append list_update_append)
    done
qed

lemma tryBlock_extends: "\<exists>r ext. tryBlock math this h = (r, h @ ext)"
proof (cases "player1OriginalBuffer this")
  case None
  then have "tryBlock math this h = (Inl MissingBuffers, h @ [])"
    by (simp add: tryBlock_missing)
  then show ?thesis by blast
next
  case b1: (Some b1)
  show ?thesis
  proof (cases "player2ReverseForwardBuffer this")
    case None
    then have "tryBlock math this h = (Inl MissingBuffers, h @ [])"
      by (simp add: tryBlock_missing)
    then show ?thesis by blast
  next
    case b2: (Some b2)
    show ?thesis
    proof (cases "0 < numberOfChannels b1 \<and> 0 < length (channelData b1)
            \<and> 0 < numberOfChannels b2 \<and> 0 < length (channelData b2)")
      case False
      then have "tryBlock math this h = (Inl IndexSizeError, h @ [])"
        using tryBlock_no_channel [OF b1 b2] by simp
      then show ?thesis by blast
    next
      case ch: True
      show ?thesis
      proof (cases "channelData b1 ! 0 < length h \<and> channelData b2 ! 0 < length h")
        case True
        then show ?thesis
          using tryBlock_present [OF b1 b2, of h math] ch by simp
      next
        case False
        then have "\<not> channelData b1 ! 0 < length h \<or> \<not> channelData b2 ! 0 < length h"
          by simp
        with ch obtain r where "tryBlock math this h = (r, h @ [[], [], [], []])"
          using tryBlock_dangling [OF b1 b2, of h math] by auto
        then show ?thesis by (intro exI)
      qed
    qed
  qed
qed

lemma compareAudio_extends: "\<exists>ext. snd (compareAudio math this onComplete h) = h @ ext"
proof -
  obtain r ext where "tryBlock math this h = (r, h @ ext)"
    using tryBlock_extends by blast
  then show ?thesis
    by (cases r) (simp_all add: compareAudio_def)
qed

lemma channel_append:
  assumes "wf_buffer h b" "c < numberOfChannels b"
  shows "channel (h @ ext) b c = channel h b c"
proof -
  have "channelData b ! c < length h"
    using assms by (simp add: wf_buffer_def list_all_length)
  then show ?thesis
    by (simp add: channel_def arr_def nth_append)
qed

section \<open>Missing input\<close>

text \<open>
  C2. When the reference buffer or the candidate buffer is absent, the \<^verbatim>\<open>try\<close> block
  throws, the \<^verbatim>\<open>catch\<close> block absorbs the exception (the result of the comparison
  has no exceptional outcome), and the completion callback receives exactly 30; without a
  callback nothing is delivered. The store is untouched.
\<close>

theorem compareAudio_missing_buffer:
  assumes "player1OriginalBuffer this = None \<or> player2ReverseForwardBuffer this = None"
  shows "tryBlock math this h = (Inl MissingBuffers, h) \<and>
         compareAudio math this True h = ([Num 30], h) \<and>
         compareAudio math this False h = ([], h)"
  using tryBlock_missing [OF assms, of math h] by (simp add: compareAudio_def)

theorem compareAudio_missing_buffer_witness:
  "(player1OriginalBuffer
      \<lparr>player1OriginalBuffer = None, player1ReversedBuffer = None,
       player2AttemptBuffer = None,
       player2ReverseForwardBuffer =
         Some \<lparr>numberOfChannels = 1, length_buf = 2, sampleRate = 48000, channelData = [0]\<rparr>\<rparr>
      = None) \<and>
   compareAudio Math_rounded
      \<lparr>player1OriginalBuffer = None, player1ReversedBuffer = None,
       player2AttemptBuffer = None,
       player2ReverseForwardBuffer =
         Some \<lparr>numberOfChannels = 1, length_buf = 2, sampleRate = 48000, channelData = [0]\<rparr>\<rparr>
      True [[1, 0]] = ([Num 30], [[1, 0]])"
  using compareAudio_missing_buffer
    [where this = "\<lparr>player1OriginalBuffer = None, player1ReversedBuffer = None,
         player2AttemptBuffer = None,
         player2ReverseForwardBuffer =
           Some \<lparr>numberOfChannels = 1, length_buf = 2, sampleRate = 48000, channelData = [0]\<rparr>\<rparr>"
       and h = "[[1, 0]]" and math = Math_rounded]
  by simp

section \<open>The inputs are not written\<close>

text \<open>
  C9. The comparison never mutates its inputs: every array that was in the store before
  the comparison holds the same samples afterwards (the comparison only adds arrays), so
  every channel of every well-formed buffer, the two inputs among them, reads as before.
\<close>

theorem compareAudio_frame:
  "take (length h) (snd (compareAudio math this onComplete h)) = h \<and>
   (\<forall>b c. wf_buffer h b \<and> c < numberOfChannels b \<longrightarrow>
      channel (snd (compareAudio math this onComplete h)) b c = channel h b c)"
proof -
  obtain ext where e: "snd (compareAudio math this onComplete h) = h @ ext"
    using compareAudio_extends by blast
  show ?thesis
    unfolding e by (simp add: channel_append)
qed

theorem compareAudio_frame_witness:
  "wf_buffer [[1, 0], [0, 1]]
     \<lparr>numberOfChannels = 1, length_buf = 2, sampleRate = 48000, channelData = [0]\<rparr> \<and>
   channel (snd (compareAudio Math_rounded
      \<lparr>player1OriginalBuffer =
         Some \<lparr>numberOfChannels = 1, length_buf = 2, sampleRate = 48000, channelData = [0]\<rparr>,
       player1ReversedBuffer = None, player2AttemptBuffer = None,
       player2ReverseForwardBuffer =
         Some \<lparr>numberOfChannels = 1, length_buf = 2, sampleRate = 48000, channelData = [1]\<rparr>\<rparr>
      True [[1, 0], [0, 1]]))
     \<lparr>numberOfChannels = 1, length_buf = 2, sampleRate = 48000, channelData = [0]\<rparr> 0
   = [1, 0]"
proof -
  have wf: "wf_buffer [[1, 0], [0, 1]]
     \<lparr>numberOfChannels = 1, length_buf = 2, sampleRate = 48000, channelData = [0]\<rparr>"
    by (simp add: wf_buffer_def)
  have "channel [[1, 0], [0, 1]]
     \<lparr>numberOfChannels = 1, length_buf = 2, sampleRate = 48000, channelData = [0]\<rparr> 0 = [1, 0]"
    by (simp add: channel_def arr_def)
  with wf show ?thesis
    using compareAudio_frame
      [where h = "[[1, 0], [0, 1]]" and math = Math_rounded and onComplete = True
         and this = "\<lparr>player1OriginalBuffer =
             Some \<lparr>numberOfChannels = 1, length_buf = 2, sampleRate = 48000, channelData = [0]\<rparr>,
            player1ReversedBuffer = None, player2AttemptBuffer = None,
            player2ReverseForwardBuffer =
             Some \<lparr>numberOfChannels = 1, length_buf = 2, sampleRate = 48000, channelData = [1]\<rparr>\<rparr>"]
    by simp
qed

section \<open>Reversal\<close>

lemma js_bind_Inr: "m h = (Inr x, h') \<Longrightarrow> js_bind m f h = f x h'"
  by (simp add: js_bind_def)

text \<open>The loop over the samples of one channel, from index \<open>i\<close> on.\<close>

lemma reverse_samples:
  assumes "inp < length H" "out < length H" "inp \<noteq> out"
    and "length (H ! inp) = len" "length (H ! out) = len" "i \<le> len"
  shows "js_forEach (\<lambda>i. js_bind (f32_get inp (len - 1 - i)) (\<lambda>v. f32_put out i v)) [i ..< len] H
         = (Inr (), H[out := take i (H ! out) @ drop i (rev (H ! inp))])"
  using assms
proof (induction "len - i" arbitrary: i H)
  case 0
  then have "i = len" by simp
  with 0 show ?case
    by (simp add: js_return_def list_update_same_conv)
next
  case (Suc k)
  then have i: "i < len" by simp
  let ?v = "(H ! inp) ! (len - 1 - i)"
  let ?H = "H[out := (H ! out)[i := ?v]]"
  have upt: "[i ..< len] = i # [Suc i ..< len]"
    using i by (simp add: upt_rec)
  have step: "js_bind (f32_get inp (len - 1 - i)) (\<lambda>v. f32_put out i v) H = (Inr (), ?H)"
    using Suc.prems i by (simp add: js_bind_def f32_get_def f32_put_def arr_def)
  have IH: "js_forEach (\<lambda>i. js_bind (f32_get inp (len - 1 - i)) (\<lambda>v. f32_put out i v)) [Suc i ..< len] ?H
         = (Inr (), ?H[out := take (Suc i) (?H ! out) @ drop (Suc i) (rev (?H ! inp))])"
    using Suc.hyps(2) Suc.prems i
    by (intro Suc.hyps(1)) simp_all
  have revn: "rev (H ! inp) ! i = ?v"
    using i Suc.prems by (simp add: rev_nth)
  have "drop i (rev (H ! inp)) = ?v # drop (Suc i) (rev (H ! inp))"
    using i Suc.prems revn by (metis Cons_nth_drop_Suc length_rev)
  moreover have "take (Suc i) ((H ! out)[i := ?v]) = take i (H ! out) @ [?v]"
    using i Suc.prems by (simp add: take_Suc_conv_app_nth)
  ultimately have "?H[out := take (Suc i) (?H ! out) @ drop (Suc i) (rev (?H ! inp))]
      = H[out := take i (H ! out) @ drop i (rev (H ! inp))]"
    using Suc.prems by simp
  then show ?case
    using step IH by (simp add: upt js_bind_def)
qed

text \<open>The loop over the channels, from channel \<open>c\<close> on, in the store that holds the new buffer.\<close>

lemma reverse_channels:
  fixes b :: AudioBuffer and h :: heap
  defines "n \<equiv> numberOfChannels b" and "len \<equiv> length_buf b"
  defines "rb \<equiv> \<lparr>numberOfChannels = n, length_buf = len, sampleRate = sampleRate b,
                  channelData = [length h ..< length h + n]\<rparr>"
  assumes wf: "wf_buffer h b" and "c \<le> n" "length ys = n" "list_all (\<lambda>y. length y = len) ys"
  shows "js_forEach (reverseChannel b rb) [c ..< n] (h @ ys)
         = (Inr (), h @ (take c ys @ map (\<lambda>k. rev (h ! (channelData b ! k))) [c ..< n]))"
  using assms(5-)
proof (induction "n - c" arbitrary: c ys)
  case 0
  then show ?case by (simp add: js_return_def)
next
  case (Suc k)
  then have c: "c < n" by simp
  let ?inp = "channelData b ! c"
  let ?out = "length h + c"
  let ?ys = "ys[c := rev (h ! ?inp)]"
  have inp: "?inp < length h" "length (h ! ?inp) = len"
    using wf c by (simp_all add: wf_buffer_def list_all_length n_def len_def)
  have lenb: "length (channelData b) = n"
    using wf by (simp add: wf_buffer_def n_def)
  have ylen: "length (ys ! c) = len"
    using Suc.prems c by (simp add: list_all_length)
  have g1: "getChannelData b c (h @ ys) = (Inr ?inp, h @ ys)"
    using c lenb by (simp add: getChannelData_def js_return_def n_def)
  have g2: "getChannelData rb c (h @ ys) = (Inr ?out, h @ ys)"
    using c by (simp add: getChannelData_def js_return_def rb_def)
  have loop: "js_forEach (\<lambda>i. js_bind (f32_get ?inp (len - 1 - i)) (\<lambda>v. f32_put ?out i v))
                [0 ..< len] (h @ ys)
              = (Inr (), (h @ ys)[?out := take 0 ((h @ ys) ! ?out) @ drop 0 (rev ((h @ ys) ! ?inp))])"
    using inp c Suc.prems ylen
    by (intro reverse_samples) (simp_all add: nth_append)
  have "(h @ ys)[?out := take 0 ((h @ ys) ! ?out) @ drop 0 (rev ((h @ ys) ! ?inp))] = h @ ?ys"
    using inp by (simp add: nth_append list_update_append)
  with loop have step: "reverseChannel b rb c (h @ ys) = (Inr (), h @ ?ys)"
    using g1 g2 by (simp add: reverseChannel_def js_bind_def len_def rb_def)
  have IH: "js_forEach (reverseChannel b rb) [Suc c ..< n] (h @ ?ys)
         = (Inr (), h @ (take (Suc c) ?ys @ map (\<lambda>k. rev (h ! (channelData b ! k))) [Suc c ..< n]))"
    using Suc.hyps(2) Suc.prems c inp
    by (intro Suc.hyps(1)) (simp_all add: list_all_length nth_list_update)
  have "take (Suc c) ?ys = take c ys @ [rev (h ! ?inp)]"
    using c Suc.prems by (simp add: take_Suc_conv_app_nth)
  moreover have "[c ..< n] = c # [Suc c ..< n]"
    using c by (simp add: upt_rec)
  ultimately show ?case
    using step IH by (simp add: js_bind_def)
qed

lemma reverseAudioBuffer_result:
  assumes "wf_buffer h b"
  shows "reverseAudioBuffer b h =
     (Inr \<lparr>numberOfChannels = numberOfChannels b, length_buf = length_buf b,
           sampleRate = sampleRate b,
           channelData = [length h ..< length h + numberOfChannels b]\<rparr>,
      h @ map (\<lambda>k. rev (h ! (channelData b ! k))) [0 ..< numberOfChannels b])"
proof -
  have "js_forEach (reverseChannel b
          \<lparr>numberOfChannels = numberOfChannels b, length_buf = length_buf b,
           sampleRate = sampleRate b,
           channelData = [length h ..< length h + numberOfChannels b]\<rparr>)
          [0 ..< numberOfChannels b]
          (h @ replicate (numberOfChannels b) (replicate (length_buf b) 0))
        = (Inr (), h @ (take 0 (replicate (numberOfChannels b) (replicate (length_buf b) 0))
             @ map (\<lambda>k. rev (h ! (channelData b ! k))) [0 ..< numberOfChannels b]))"
    using assms by (intro reverse_channels) (simp_all add: list_all_length)
  then show ?thesis
    by (simp add: reverseAudioBuffer_def createBuffer_def js_bind_def js_return_def)
qed

lemma reverseAudioBuffer_wf:
  assumes "wf_buffer h b"
  shows "wf_buffer (h @ map (\<lambda>k. rev (h ! (channelData b ! k))) [0 ..< numberOfChannels b])
     \<lparr>numberOfChannels = numberOfChannels b, length_buf = length_buf b,
           sampleRate = sampleRate b,
           channelData = [length h ..< length h + numberOfChannels b]\<rparr>"
  using assms
  by (simp add: wf_buffer_def list_all_length nth_append)

text \<open>
  C10. Reversal is an involution. For a well-formed buffer, reversing yields a fresh
  buffer whose channels are the mirrored channels of the input, and reversing that buffer
  again yields a buffer with the channel count, length, sample rate and, channel by
  channel, the samples of the original.
\<close>

theorem reverseAudioBuffer_involution:
  assumes "wf_buffer h b"
  shows "\<exists>r1 h1 r2 h2.
           reverseAudioBuffer b h = (Inr r1, h1) \<and> reverseAudioBuffer r1 h1 = (Inr r2, h2) \<and>
           numberOfChannels r2 = numberOfChannels b \<and> length_buf r2 = length_buf b \<and>
           sampleRate r2 = sampleRate b \<and>
           list_all (\<lambda>c. channel h1 r1 c = rev (channel h b c) \<and>
                         channel h2 r2 c = channel h b c) [0 ..< numberOfChannels b]"
proof -
  let ?n = "numberOfChannels b"
  let ?r1 = "\<lparr>numberOfChannels = ?n, length_buf = length_buf b, sampleRate = sampleRate b,
              channelData = [length h ..< length h + ?n]\<rparr>"
  let ?h1 = "h @ map (\<lambda>k. rev (h ! (channelData b ! k))) [0 ..< ?n]"
  let ?r2 = "\<lparr>numberOfChannels = ?n, length_buf = length_buf b, sampleRate = sampleRate b,
              channelData = [length ?h1 ..< length ?h1 + ?n]\<rparr>"
  let ?h2 = "?h1 @ map (\<lambda>k. rev (?h1 ! (channelData ?r1 ! k))) [0 ..< ?n]"
  have one: "reverseAudioBuffer b h = (Inr ?r1, ?h1)"
    using assms by (rule reverseAudioBuffer_result)
  have "reverseAudioBuffer ?r1 ?h1 =
     (Inr \<lparr>numberOfChannels = numberOfChannels ?r1, length_buf = length_buf ?r1,
           sampleRate = sampleRate ?r1,
           channelData = [length ?h1 ..< length ?h1 + numberOfChannels ?r1]\<rparr>,
      ?h1 @ map (\<lambda>k. rev (?h1 ! (channelData ?r1 ! k))) [0 ..< numberOfChannels ?r1])"
    using reverseAudioBuffer_wf [OF assms] by (rule reverseAudioBuffer_result)
  then have two: "reverseAudioBuffer ?r1 ?h1 = (Inr ?r2, ?h2)"
    by simp
  have inp: "\<And>c. c < ?n \<Longrightarrow> channelData b ! c < length h"
    using assms by (simp add: wf_buffer_def list_all_length)
  have c1: "\<And>c. c < ?n \<Longrightarrow> channel ?h1 ?r1 c = rev (channel h b c)"
    using inp by (simp add: channel_def arr_def nth_append)
  have c2: "\<And>c. c < ?n \<Longrightarrow> channel ?h2 ?r2 c = channel h b c"
    using inp by (simp add: channel_def arr_def nth_append)
  have "list_all (\<lambda>c. channel ?h1 ?r1 c = rev (channel h b c) \<and>
                       channel ?h2 ?r2 c = channel h b c) [0 ..< ?n]"
    using c1 c2 by (simp add: list_all_length)
  with one two show ?thesis
    by (intro exI [of _ ?r1] exI [of _ ?h1] exI [of _ ?r2] exI [of _ ?h2]) simp
qed

lemma reverseAudioBuffer_example:
  "reverseAudioBuffer
     \<lparr>numberOfChannels = 2, length_buf = 3, sampleRate = 48000, channelData = [0, 1]\<rparr>
     [[1, 2, 3], [4, 5, 6]]
   = (Inr \<lparr>numberOfChannels = 2, length_buf = 3, sampleRate = 48000, channelData = [2, 3]\<rparr>,
      [[1, 2, 3], [4, 5, 6], [3, 2, 1], [6, 5, 4]])"
  by code_simp

theorem reverseAudioBuffer_involution_witness:
  "wf_buffer [[1, 2, 3], [4, 5, 6]]
     \<lparr>numberOfChannels = 2, length_buf = 3, sampleRate = 48000, channelData = [0, 1]\<rparr> \<and>
   (\<exists>r1 h1 r2 h2.
      reverseAudioBuffer
        \<lparr>numberOfChannels = 2, length_buf = 3, sampleRate = 48000, channelData = [0, 1]\<rparr>
        [[1, 2, 3], [4, 5, 6]] = (Inr r1, h1) \<and>
      reverseAudioBuffer r1 h1 = (Inr r2, h2) \<and>
      numberOfChannels r2 = 2 \<and> length_buf r2 = 3 \<and> sampleRate r2 = 48000 \<and>
      list_all (\<lambda>c. channel h1 r1 c
                     = rev (channel [[1, 2, 3], [4, 5, 6]]
                        \<lparr>numberOfChannels = 2, length_buf = 3, sampleRate = 48000,
                          channelData = [0, 1]\<rparr> c) \<and>
                    channel h2 r2 c
                     = channel [[1, 2, 3], [4, 5, 6]]
                        \<lparr>numberOfChannels = 2, length_buf = 3, sampleRate = 48000,
                          channelData = [0, 1]\<rparr> c) [0 ..< 2])"
proof -
  have wf: "wf_buffer [[1, 2, 3], [4, 5, 6]]
     \<lparr>numberOfChannels = 2, length_buf = 3, sampleRate = 48000, channelData = [0, 1]\<rparr>"
    by (simp add: wf_buffer_def)
  show ?thesis
    using wf reverseAudioBuffer_involution [OF wf] by simp
qed

section \<open>Sums\<close>

lemma jadd_fl_zero [simp]: "jadd (fl x) (Num 0) = fl x"
proof (cases "fl x")
  case (Num r)
  then show ?thesis using fl_idem [OF Num] by simp
qed simp_all

lemma jadd_zero_fl [simp]: "jadd (Num 0) (fl x) = fl x"
proof (cases "fl x")
  case (Num r)
  then show ?thesis using fl_idem [OF Num] by simp
qed simp_all

lemma jadd_commute: "jadd a b = jadd b a"
  by (cases a; cases b) (simp_all add: add.commute)

lemma jmul_commute: "jmul a b = jmul b a"
  by (cases a; cases b) (simp_all add: mult.commute)

lemma jsum_Nil [simp]: "jsum f [] = Num 0"
  by (simp add: jsum_def)









section \<open>Buffers too short for a frame\<close>

lemma positions_empty: "bound \<le> int pos \<Longrightarrow> positions bound hop pos = []"
  by (simp add: positions.simps)

lemma extractMFCCFeatures_short: "length xs \<le> 2048 \<Longrightarrow> extractMFCCFeatures math xs rate = []"
  by (simp add: extractMFCCFeatures_def positions_empty)

lemma extractPitchContour_short: "length xs \<le> 2048 \<Longrightarrow> extractPitchContour xs rate = []"
  by (simp add: extractPitchContour_def positions_empty)

lemma calculateRMSEnergyCurve_short: "length xs \<le> 2048 \<Longrightarrow> calculateRMSEnergyCurve xs 2048 = []"
  by (simp add: calculateRMSEnergyCurve_def positions_empty)

lemma calculateSpectralCentroid_short: "length xs < 2048 \<Longrightarrow> calculateSpectralCentroid xs rate = Num 0"
  by (simp add: calculateSpectralCentroid_def)

lemma score_short:
  assumes "length normalized1 < 2048" "length normalized2 < 2048"
  shows "score math buffer1 buffer2 normalized1 normalized2 minLength =
         fusion (Num (1 / 2)) (Num (1 / 2)) (Num (1 / 2)) (Num 1)
           (energyMatch normalized1 normalized2 minLength) (durationMatch buffer1 buffer2)"
  using assms
  by (simp add: score_def mfccSimilarity_def pitchMatch_def envelopeMatch_def spectralMatch_def
      extractMFCCFeatures_short extractPitchContour_short calculateRMSEnergyCurve_short
      calculateSpectralCentroid_short calculateMFCCSimilarity_def calculatePitchContourMatch_def
      calculateCorrelation_def jsub_def jmax_def jmin_def)

text \<open>The comparison of two buffers, put into the two slots of the manager.\<close>

lemma compareAudio_present:
  fixes h :: heap and b1 b2 :: AudioBuffer
  defines "data1 \<equiv> arr h (channelData b1 ! 0)" and "data2 \<equiv> arr h (channelData b2 ! 0)"
  defines "minLength \<equiv> min (length data1) (length data2)"
  assumes "player1OriginalBuffer this = Some b1" "player2ReverseForwardBuffer this = Some b2"
    and "wf_buffer h b1" "wf_buffer h b2"
  shows "compareAudio math this onComplete h =
     (if onComplete
      then [score math b1 b2 (take minLength data1) (take minLength data2) minLength] else [],
      h @ [take minLength data1, take minLength data2,
           take minLength data1, take minLength data2])"
proof -
  have "0 < numberOfChannels b1" "0 < length (channelData b1)" "channelData b1 ! 0 < length h"
       "0 < numberOfChannels b2" "0 < length (channelData b2)" "channelData b2 ! 0 < length h"
    using assms(6,7) by (simp_all add: wf_buffer_def list_all_length)
  then have "tryBlock math this h =
     (Inr (score math b1 b2 (take minLength data1) (take minLength data2) minLength),
      h @ [take minLength data1, take minLength data2,
           take minLength data1, take minLength data2])"
    unfolding minLength_def data1_def data2_def
    using assms(4,5) by (intro tryBlock_present)
  then show ?thesis
    by (simp add: compareAudio_def)
qed

section \<open>The frames of the loops\<close>

lemma frame_count_step:
  assumes "0 < hop" "0 < (d :: nat)"
  shows "(d + (hop - 1)) div hop = Suc ((d - hop + (hop - 1)) div hop)"
proof (cases "hop \<le> d")
  case True
  then have "d + (hop - 1) = (d - hop + (hop - 1)) + hop"
    using assms by simp
  then show ?thesis
    using assms by (simp only: div_add_self2)
next
  case False
  then have "d - hop = 0" by simp
  moreover have "(d + (hop - 1)) div hop = 1"
  proof -
    have "hop \<le> d + (hop - 1)" "d + (hop - 1) < 2 * hop"
      using assms False by simp_all
    then show ?thesis
      by (metis (no_types) Suc_1 div_nat_eqI mult.commute mult_Suc_right nat_mult_1_right One_nat_def mult.right_neutral)
  qed
  ultimately show ?thesis
    using assms by simp
qed

lemma positions_closed_form:
  assumes "0 < hop"
  shows "positions (int len - int w) hop pos =
         map (\<lambda>k. pos + hop * k) [0 ..< (len - w - pos + (hop - 1)) div hop]"
  using assms
proof (induction "len - w - pos" arbitrary: pos rule: less_induct)
  case less
  show ?case
  proof (cases "int pos < int len - int w")
    case False
    then have "len - w - pos = 0" by simp
    then show ?thesis
      using False less.prems by (simp add: positions.simps)
  next
    case True
    then have d: "0 < len - w - pos" by simp
    have smaller: "len - w - (pos + hop) < len - w - pos"
      using d less.prems by simp
    have IH: "positions (int len - int w) hop (pos + hop) =
         map (\<lambda>k. pos + hop + hop * k) [0 ..< (len - w - (pos + hop) + (hop - 1)) div hop]"
      using less.hyps [OF smaller less.prems] .
    have e: "len - w - (pos + hop) = len - w - pos - hop"
      by simp
    have cnt: "(len - w - pos + (hop - 1)) div hop
               = Suc ((len - w - (pos + hop) + (hop - 1)) div hop)"
      unfolding e by (rule frame_count_step [OF less.prems d])
    have "positions (int len - int w) hop pos = pos # positions (int len - int w) hop (pos + hop)"
      using True less.prems by (subst positions.simps) simp
    also have "\<dots> = map (\<lambda>k. pos + hop * k) [0 ..< (len - w - pos + (hop - 1)) div hop]"
      unfolding IH cnt by (simp add: map_upt_Suc add.assoc del: upt_Suc)
    finally show ?thesis .
  qed
qed

lemma frame_starts:
  "positions (int (length audioData) - 2048) 512 0 =
   map (\<lambda>k. 512 * k) [0 ..< (length audioData - 2048 + 511) div 512]"
  using positions_closed_form [of 512 "length audioData" 2048 0] by simp

lemma positions_single:
  assumes "0 < bound" "bound \<le> int hop"
  shows "positions bound hop 0 = [0]"
proof -
  have "0 < hop" using assms by simp
  then have "positions bound hop 0 = 0 # positions bound hop hop"
    using assms(1) by (subst positions.simps) simp
  then show ?thesis
    using assms(2) by (simp add: positions_empty)
qed

lemma positions_in_range:
  assumes "pos \<in> set (positions (int len - int w) hop start)"
  shows "pos + w < len"
  using assms
proof (induction "int len - int w" hop start rule: positions.induct)
  case (1 hop start)
  show ?case
  proof (cases "int start < int len - int w \<and> 0 < hop")
    case True
    then have "positions (int len - int w) hop start
               = start # positions (int len - int w) hop (start + hop)"
      by (subst positions.simps) simp
    then have "pos = start \<or> pos \<in> set (positions (int len - int w) hop (start + hop))"
      using "1.prems" by simp
    then show ?thesis
      using True "1.hyps" by auto
  next
    case False
    then have "positions (int len - int w) hop start = []"
      by (subst positions.simps) simp
    then show ?thesis
      using "1.prems" by simp
  qed
qed

section \<open>Duration match\<close>

text \<open>The duration of a buffer of the API is a positive number.\<close>

lemma duration_api:
  assumes "api_buffer b"
  shows "\<exists>d. duration b = Num d \<and> 0 < d"
proof -
  define n where "n = real (length_buf b)"
  define r where "r = sampleRate b"
  have n: "1 \<le> n" "n \<le> 2 ^ 32"
    using assms by (simp_all add: api_buffer_def n_def)
  have r: "pow2 (- 149) \<le> r" "r < pow2 128"
    using assms by (simp_all add: api_buffer_def r_def)
  have r0: "0 < r"
    using r(1) pow2_pos [of "- 149"] by linarith
  have "pow2 (- 128) * r \<le> n"
  proof -
    have "pow2 (- 128) * r \<le> pow2 (- 128) * pow2 128"
      using r(2) by (intro mult_left_mono) simp_all
    also have "\<dots> = 1" by (simp add: pow2_add [symmetric])
    finally show ?thesis using n(1) by linarith
  qed
  then have lo: "pow2 (- 128) \<le> n / r"
    using r0 by (simp add: pos_le_divide_eq)
  have "n \<le> 2 ^ 32 * pow2 149 * r"
  proof -
    have "1 = pow2 149 * pow2 (- 149)" by (simp add: pow2_add [symmetric])
    also have "\<dots> \<le> pow2 149 * r"
      using r(1) by (intro mult_left_mono) simp_all
    finally have "2 ^ 32 * 1 \<le> 2 ^ 32 * (pow2 149 * r)"
      by (intro mult_left_mono) simp_all
    then show ?thesis using n(2) by (simp add: mult.assoc)
  qed
  then have hi: "n / r \<le> 2 ^ 32 * pow2 149"
    using r0 by (simp add: pos_divide_le_eq)
  have "pow2 (- 1022) \<le> pow2 (- 128)" by simp
  then have a: "pow2 (- 1022) \<le> n / r" using lo by linarith
  have "2 ^ 32 * pow2 149 = pow2 181"
    by (simp add: pow2_def)
  then have b: "n / r \<le> pow2 1023"
    using hi pow2_le_iff [of 181 1023] by linarith
  obtain d where "fl (n / r) = Num d" "0 < d"
    using fl_pos [OF a b] by blast
  then show ?thesis
    using r0 by (simp add: duration_def n_def r_def)
qed

text \<open>
  C7. Two buffers of the API with the same sample count and the same sample rate have a
  duration match of exactly 1: the two durations are one positive number, their
  difference is 0, and the quotient \<open>0 / dur\<close> is 0.
\<close>

theorem durationMatch_identical:
  assumes "length_buf b1 = length_buf b2" "sampleRate b1 = sampleRate b2"
    and "api_buffer b1"
  shows "durationMatch b1 b2 = Num 1"
proof -
  obtain d where d: "duration b1 = Num d" "0 < d"
    using duration_api [OF assms(3)] by blast
  have "duration b2 = duration b1"
    using assms(1,2) by (simp add: duration_def)
  then show ?thesis
    using d by (simp add: durationMatch_def jsub_def jmax_def)
qed

theorem durationMatch_identical_witness:
  "length_buf \<lparr>numberOfChannels = 1, length_buf = 2, sampleRate = 48000, channelData = [0]\<rparr>
     = length_buf \<lparr>numberOfChannels = 1, length_buf = 2, sampleRate = 48000, channelData = [1]\<rparr> \<and>
   api_buffer \<lparr>numberOfChannels = 1, length_buf = 2, sampleRate = 48000, channelData = [0]\<rparr> \<and>
   durationMatch
     \<lparr>numberOfChannels = 1, length_buf = 2, sampleRate = 48000, channelData = [0]\<rparr>
     \<lparr>numberOfChannels = 1, length_buf = 2, sampleRate = 48000, channelData = [1]\<rparr> = Num 1"
proof -
  have a: "api_buffer \<lparr>numberOfChannels = 1, length_buf = 2, sampleRate = 48000, channelData = [0]\<rparr>"
    by (simp add: api_buffer_def pow2_def)
  show ?thesis
    using a durationMatch_identical
      [of "\<lparr>numberOfChannels = 1, length_buf = 2, sampleRate = 48000, channelData = [0]\<rparr>"
          "\<lparr>numberOfChannels = 1, length_buf = 2, sampleRate = 48000, channelData = [1]\<rparr>"]
    by simp
qed

section \<open>Roundings\<close>

text \<open>The literals of the source, and the roundings that the examples below meet.\<close>

lemma lit_035: "fl (7 / 20) = Num (3152519739159347 / 9007199254740992)"
  by (rule fl_eqI [where e = "- 2" and m = "6305039478318694"]) (simp_all add: pow2_def)

lemma lit_025: "fl (1 / 4) = Num (1 / 4)"
  by (rule fl_exact [where m = "1" and k = "- 2"]) (simp_all add: pow2_def)

lemma lit_015: "fl (3 / 20) = Num (5404319552844595 / 36028797018963968)"
  by (rule fl_eqI [where e = "- 3" and m = "5404319552844595"]) (simp_all add: pow2_def)

lemma lit_010: "fl (1 / 10) = Num (3602879701896397 / 36028797018963968)"
  by (rule fl_eqI [where e = "- 4" and m = "7205759403792794"]) (simp_all add: pow2_def)

lemma lit_005: "fl (1 / 20) = Num (3602879701896397 / 72057594037927936)"
  by (rule fl_eqI [where e = "- 5" and m = "7205759403792794"]) (simp_all add: pow2_def)

lemma lit_07: "fl (7 / 10) = Num (3152519739159347 / 4503599627370496)"
  by (rule fl_eqI [where e = "- 1" and m = "6305039478318694"]) (simp_all add: pow2_def)

lemma lit_04: "fl (2 / 5) = Num (3602879701896397 / 9007199254740992)"
  by (rule fl_eqI [where e = "- 2" and m = "7205759403792794"]) (simp_all add: pow2_def)

lemma lit_slope: "fl (16667 / 100) = Num (5864179296045629 / 35184372088832)"
  by (rule fl_eqI [where e = "7" and m = "5864179296045629"]) (simp_all add: pow2_def)

lemma lit_slope_claim: "fl (166667 / 1000) = Num (5864073742929363 / 35184372088832)"
  by (rule fl_eqI [where e = "7" and m = "5864073742929363"]) (simp_all add: pow2_def)

lemma lit_floor: "fl (1 / 10000000000) = Num (7737125245533627 / 77371252455336267181195264)"
  by (rule fl_eqI [where e = "- 34" and m = "7737125245533627"]) (simp_all add: pow2_def)

lemma lit_0001: "fl (1 / 1000) = Num (1152921504606847 / 1152921504606846976)"
  by (rule fl_eqI [where e = "- 10" and m = "4611686018427388"]) (simp_all add: pow2_def)

lemma lit_03: "fl (3 / 10) = Num (5404319552844595 / 18014398509481984)"
  by (rule fl_eqI [where e = "- 2" and m = "5404319552844595"]) (simp_all add: pow2_def)

lemma rounding_13: "fl (3152519739159347 / 18014398509481984) = Num (3152519739159347 / 18014398509481984)"
  by (rule fl_exact [where m = "3152519739159347" and k = "- 54"]) (simp_all add: pow2_def)

lemma rounding_14: "fl (1 / 8) = Num (1 / 8)"
  by (rule fl_exact [where m = "1" and k = "- 3"]) (simp_all add: pow2_def)

lemma rounding_15: "fl (5404319552844595 / 18014398509481984) = Num (5404319552844595 / 18014398509481984)"
  by (rule fl_exact [where m = "5404319552844595" and k = "- 54"]) (simp_all add: pow2_def)

lemma rounding_16: "fl (5404319552844595 / 72057594037927936) = Num (5404319552844595 / 72057594037927936)"
  by (rule fl_exact [where m = "5404319552844595" and k = "- 56"]) (simp_all add: pow2_def)

lemma rounding_17: "fl (27021597764222975 / 72057594037927936) = Num (3 / 8)"
  by (rule fl_eqI [where e = "- 2" and m = "6755399441055744"]) (simp_all add: pow2_def)

lemma rounding_18: "fl (3602879701896397 / 36028797018963968) = Num (3602879701896397 / 36028797018963968)"
  by (rule fl_exact [where m = "3602879701896397" and k = "- 55"]) (simp_all add: pow2_def)

lemma rounding_19: "fl (17113678584007885 / 36028797018963968) = Num (4278419646001971 / 9007199254740992)"
  by (rule fl_eqI_tie [where e = "- 2" and m = "8556839292003942"]) (simp_all add: pow2_def)

lemma rounding_20: "fl (20716558285904281 / 36028797018963968) = Num (2589569785738035 / 4503599627370496)"
  by (rule fl_eqI [where e = "- 1" and m = "5179139571476070"]) (simp_all add: pow2_def)

lemma rounding_21: "fl (3602879701896397 / 72057594037927936) = Num (3602879701896397 / 72057594037927936)"
  by (rule fl_exact [where m = "3602879701896397" and k = "- 56"]) (simp_all add: pow2_def)

lemma rounding_22: "fl (45035996273704957 / 72057594037927936) = Num (5 / 8)"
  by (rule fl_eqI [where e = "- 1" and m = "5629499534213120"]) (simp_all add: pow2_def)

lemma rounding_23: "fl (2026619832316723 / 9007199254740992) = Num (2026619832316723 / 9007199254740992)"
  by (rule fl_exact [where m = "2026619832316723" and k = "- 53"]) (simp_all add: pow2_def)

lemma rounding_24: "fl (50665495807918075 / 2251799813685248) = Num (6333186975989759 / 281474976710656)"
  by (rule fl_eqI [where e = "4" and m = "6333186975989759"]) (simp_all add: pow2_def)

lemma rounding_25: "fl (11962686510202879 / 281474976710656) = Num (85 / 2)"
  by (rule fl_eqI_tie [where e = "5" and m = "5981343255101440"]) (simp_all add: pow2_def)

lemma rounding_26: "fl (1 / 48000) = Num (6148914691236517 / 295147905179352825856)"
  by (rule fl_eqI [where e = "- 16" and m = "6148914691236517"]) (simp_all add: pow2_def)

lemma rounding_27: "fl (1 / 9600) = Num (7686143364045647 / 73786976294838206464)"
  by (rule fl_eqI [where e = "- 14" and m = "7686143364045647"]) (simp_all add: pow2_def)

lemma rounding_28: "fl (- (24595658764946071 / 295147905179352825856)) = Num (- (3074457345618259 / 36893488147419103232))"
  by (rule fl_eqI [where e = "- 14" and m = "- 6148914691236518"]) (simp_all add: pow2_def)

lemma rounding_29: "fl (6148914691236518 / 7686143364045647) = Num (3602879701896397 / 4503599627370496)"
  by (rule fl_eqI [where e = "- 1" and m = "7205759403792794"]) (simp_all add: pow2_def)

lemma rounding_30: "fl (900719925474099 / 4503599627370496) = Num (900719925474099 / 4503599627370496)"
  by (rule fl_exact [where m = "900719925474099" and k = "- 52"]) (simp_all add: pow2_def)

lemma rounding_31: "fl (3245185536584266727399604921303 / 324518553658426726783156020576256) = Num (2882303761517117 / 288230376151711744)"
  by (rule fl_eqI [where e = "- 7" and m = "5764607523034234"]) (simp_all add: pow2_def)

lemma rounding_32: "fl (168614770048751357 / 288230376151711744) = Num (658651445502935 / 1125899906842624)"
  by (rule fl_eqI [where e = "- 1" and m = "5269211564023480"]) (simp_all add: pow2_def)

lemma rounding_33: "fl (1666331862127083 / 9007199254740992) = Num (1666331862127083 / 9007199254740992)"
  by (rule fl_exact [where m = "1666331862127083" and k = "- 53"]) (simp_all add: pow2_def)

lemma rounding_34: "fl (41658296553177075 / 2251799813685248) = Num (2603643534573567 / 140737488355328)"
  by (rule fl_eqI [where e = "4" and m = "5207287069147134"]) (simp_all add: pow2_def)

lemma rounding_35: "fl (5418393301680127 / 140737488355328) = Num (5418393301680127 / 140737488355328)"
  by (rule fl_exact [where m = "5418393301680127" and k = "- 47"]) (simp_all add: pow2_def)

lemma rounding_36: "fl (1 / 24000) = Num (6148914691236517 / 147573952589676412928)"
  by (rule fl_eqI [where e = "- 15" and m = "6148914691236517"]) (simp_all add: pow2_def)

lemma rounding_37: "fl (- (9223372036854777 / 147573952589676412928)) = Num (- (1152921504606847 / 18446744073709551616))"
  by (rule fl_eqI_tie [where e = "- 14" and m = "- 4611686018427388"]) (simp_all add: pow2_def)

lemma rounding_38: "fl (4611686018427388 / 7686143364045647) = Num (5404319552844595 / 9007199254740992)"
  by (rule fl_eqI [where e = "- 1" and m = "5404319552844595"]) (simp_all add: pow2_def)

lemma rounding_39: "fl (3602879701896397 / 9007199254740992) = Num (3602879701896397 / 9007199254740992)"
  by (rule fl_exact [where m = "3602879701896397" and k = "- 53"]) (simp_all add: pow2_def)

lemma rounding_40: "fl (4278419646001971 / 9007199254740992) = Num (4278419646001971 / 9007199254740992)"
  by (rule fl_exact [where m = "4278419646001971" and k = "- 53"]) (simp_all add: pow2_def)

lemma rounding_41: "fl (12980742146337070512478121581609 / 649037107316853453566312041152512) = Num (1441151880758559 / 72057594037927936)"
  by (rule fl_eqI [where e = "- 6" and m = "5764607523034236"]) (simp_all add: pow2_def)

lemma rounding_42: "fl (35668509048774327 / 72057594037927936) = Num (4458563631096791 / 9007199254740992)"
  by (rule fl_eqI [where e = "- 2" and m = "8917127262193582"]) (simp_all add: pow2_def)

lemma rounding_43: "fl (427841964600197 / 4503599627370496) = Num (427841964600197 / 4503599627370496)"
  by (rule fl_exact [where m = "427841964600197" and k = "- 52"]) (simp_all add: pow2_def)

lemma rounding_44: "fl (10696049115004925 / 1125899906842624) = Num (2674012278751231 / 281474976710656)"
  by (rule fl_eqI_tie [where e = "3" and m = "5348024557502462"]) (simp_all add: pow2_def)

lemma rounding_45: "fl (8303511812964351 / 281474976710656) = Num (8303511812964351 / 281474976710656)"
  by (rule fl_exact [where m = "8303511812964351" and k = "- 48"]) (simp_all add: pow2_def)

lemma rounding_46: "fl (2501 / 4096) = Num (2501 / 4096)"
  by (rule fl_exact [where m = "2501" and k = "- 12"]) (simp_all add: pow2_def)

lemma rounding_47: "fl (375 / 16) = Num (375 / 16)"
  by (rule fl_exact [where m = "375" and k = "- 4"]) (simp_all add: pow2_def)

lemma rounding_48: "fl (9375 / 16384) = Num (9375 / 16384)"
  by (rule fl_exact [where m = "9375" and k = "- 14"]) (simp_all add: pow2_def)

lemma rounding_49: "fl (2499 / 4096) = Num (2499 / 4096)"
  by (rule fl_exact [where m = "2499" and k = "- 12"]) (simp_all add: pow2_def)

lemma rounding_50: "fl (2599 / 4096) = Num (2599 / 4096)"
  by (rule fl_exact [where m = "2599" and k = "- 12"]) (simp_all add: pow2_def)

lemma rounding_51: "fl (9375 / 10396) = Num (4061297278433859 / 4503599627370496)"
  by (rule fl_eqI [where e = "- 1" and m = "8122594556867718"]) (simp_all add: pow2_def)

lemma rounding_52: "fl (4061297278433859 / 4503599627370496) = Num (4061297278433859 / 4503599627370496)"
  by (rule fl_exact [where m = "4061297278433859" and k = "- 52"]) (simp_all add: pow2_def)

lemma rounding_53: "fl (- (4061297278433859 / 4503599627370496)) = Num (- (4061297278433859 / 4503599627370496))"
  by (rule fl_exact [where m = "- 4061297278433859" and k = "- 52"]) (simp_all add: pow2_def)

lemma rounding_54: "fl (442302348936637 / 4503599627370496) = Num (442302348936637 / 4503599627370496)"
  by (rule fl_exact [where m = "442302348936637" and k = "- 52"]) (simp_all add: pow2_def)

lemma rounding_55: "fl (6255001 / 16777216) = Num (6255001 / 16777216)"
  by (rule fl_exact [where m = "6255001" and k = "- 24"]) (simp_all add: pow2_def)

lemma rounding_56: "fl (6255001 / 34359738368) = Num (6255001 / 34359738368)"
  by (rule fl_exact [where m = "6255001" and k = "- 35"]) (simp_all add: pow2_def)

lemma rounding_57: "fl (sqrt (6255001 / 34359738368)) = Num (7777831168450663 / 576460752303423488)"
  by (rule fl_sqrt_eqI [where e = "- 7" and m = "7777831168450663"]) (simp_all add: pow2_def)

lemma rounding_58: "fl (6245001 / 16777216) = Num (6245001 / 16777216)"
  by (rule fl_exact [where m = "6245001" and k = "- 24"]) (simp_all add: pow2_def)

lemma rounding_59: "fl (625 / 1048576) = Num (625 / 1048576)"
  by (rule fl_exact [where m = "625" and k = "- 20"]) (simp_all add: pow2_def)

lemma rounding_60: "fl (16 / 375) = Num (6148914691236517 / 144115188075855872)"
  by (rule fl_eqI [where e = "- 5" and m = "6148914691236517"]) (simp_all add: pow2_def)

lemma rounding_61: "fl (32 / 125) = Num (1152921504606847 / 4503599627370496)"
  by (rule fl_eqI [where e = "- 2" and m = "4611686018427388"]) (simp_all add: pow2_def)

lemma rounding_62: "fl (- (30744573456182587 / 144115188075855872)) = Num (- (7686143364045647 / 36028797018963968))"
  by (rule fl_eqI [where e = "- 3" and m = "- 7686143364045647"]) (simp_all add: pow2_def)

lemma rounding_63: "fl (7686143364045647 / 9223372036854776) = Num (7505999378950827 / 9007199254740992)"
  by (rule fl_eqI [where e = "- 1" and m = "7505999378950827"]) (simp_all add: pow2_def)

lemma rounding_64: "fl (1501199875790165 / 9007199254740992) = Num (1501199875790165 / 9007199254740992)"
  by (rule fl_exact [where m = "1501199875790165" and k = "- 53"]) (simp_all add: pow2_def)

lemma rounding_65: "fl (1593562155084906881185291596889 / 162259276829213363391578010288128) = Num (2830735033194477 / 288230376151711744)"
  by (rule fl_eqI [where e = "- 7" and m = "5661470066388954"]) (simp_all add: pow2_def)

lemma rounding_66: "fl (110917126090086381 / 288230376151711744) = Num (6932320380630399 / 18014398509481984)"
  by (rule fl_eqI [where e = "- 2" and m = "6932320380630399"]) (simp_all add: pow2_def)

lemma rounding_67: "fl (17467520463157195 / 36028797018963968) = Num (4366880115789299 / 9007199254740992)"
  by (rule fl_eqI_tie [where e = "- 2" and m = "8733760231578598"]) (simp_all add: pow2_def)

lemma rounding_68: "fl (5408642560973777878999341535505 / 649037107316853453566312041152512) = Num (300239975158033 / 36028797018963968)"
  by (rule fl_eqI [where e = "- 7" and m = "4803839602528528"]) (simp_all add: pow2_def)

lemma rounding_69: "fl (17767760438315229 / 36028797018963968) = Num (4441940109578807 / 9007199254740992)"
  by (rule fl_eqI_tie [where e = "- 2" and m = "8883880219157614"]) (simp_all add: pow2_def)

lemma rounding_70: "fl (419530203841205 / 4503599627370496) = Num (419530203841205 / 4503599627370496)"
  by (rule fl_exact [where m = "419530203841205" and k = "- 52"]) (simp_all add: pow2_def)

lemma rounding_71: "fl (10488255096030125 / 1125899906842624) = Num (2622063774007531 / 281474976710656)"
  by (rule fl_eqI_tie [where e = "3" and m = "5244127548015062"]) (simp_all add: pow2_def)

lemma rounding_72: "fl (8251563308220651 / 281474976710656) = Num (8251563308220651 / 281474976710656)"
  by (rule fl_exact [where m = "8251563308220651" and k = "- 48"]) (simp_all add: pow2_def)

lemma rounding_73: "fl (125 / 32) = Num (125 / 32)"
  by (rule fl_exact [where m = "125" and k = "- 5"]) (simp_all add: pow2_def)

lemma rounding_74: "fl (3125 / 32768) = Num (3125 / 32768)"
  by (rule fl_exact [where m = "3125" and k = "- 15"]) (simp_all add: pow2_def)

lemma rounding_75: "fl (3125 / 20792) = Num (1353765759477953 / 9007199254740992)"
  by (rule fl_eqI [where e = "- 3" and m = "5415063037911812"]) (simp_all add: pow2_def)

lemma rounding_76: "fl (1353765759477953 / 9007199254740992) = Num (1353765759477953 / 9007199254740992)"
  by (rule fl_exact [where m = "1353765759477953" and k = "- 53"]) (simp_all add: pow2_def)

lemma rounding_77: "fl (7653433495263039 / 9007199254740992) = Num (7653433495263039 / 9007199254740992)"
  by (rule fl_exact [where m = "7653433495263039" and k = "- 53"]) (simp_all add: pow2_def)

lemma rounding_78: "fl (30744573456182587 / 144115188075855872) = Num (7686143364045647 / 36028797018963968)"
  by (rule fl_eqI [where e = "- 3" and m = "7686143364045647"]) (simp_all add: pow2_def)

lemma rounding_79: "fl (27574400189897197693524641370483 / 324518553658426726783156020576256) = Num (23916979672697 / 281474976710656)"
  by (rule fl_eqI [where e = "- 4" and m = "6122746796210432"]) (simp_all add: pow2_def)

lemma rounding_80: "fl (129470095939193 / 281474976710656) = Num (129470095939193 / 281474976710656)"
  by (rule fl_exact [where m = "129470095939193" and k = "- 48"]) (simp_all add: pow2_def)

lemma rounding_81: "fl (20175051982113101 / 36028797018963968) = Num (5043762995528275 / 9007199254740992)"
  by (rule fl_eqI [where e = "- 1" and m = "5043762995528275"]) (simp_all add: pow2_def)

lemma rounding_82: "fl (20475291957271133 / 36028797018963968) = Num (5118822989317783 / 9007199254740992)"
  by (rule fl_eqI [where e = "- 1" and m = "5118822989317783"]) (simp_all add: pow2_def)

lemma rounding_83: "fl (757971643710693 / 4503599627370496) = Num (757971643710693 / 4503599627370496)"
  by (rule fl_exact [where m = "757971643710693" and k = "- 52"]) (simp_all add: pow2_def)

lemma rounding_84: "fl (18949291092767325 / 1125899906842624) = Num (4737322773191831 / 281474976710656)"
  by (rule fl_eqI [where e = "4" and m = "4737322773191831"]) (simp_all add: pow2_def)

lemma rounding_85: "fl (10366822307404951 / 281474976710656) = Num (1295852788425619 / 35184372088832)"
  by (rule fl_eqI_tie [where e = "5" and m = "5183411153702476"]) (simp_all add: pow2_def)

lemmas literals = lit_035 lit_025 lit_015 lit_010 lit_005 lit_07 lit_04 lit_slope lit_slope_claim lit_floor lit_0001 lit_03

lemmas roundings =
  rounding_13 rounding_14 rounding_15 rounding_16 rounding_17 rounding_18 rounding_19 rounding_20
  rounding_21 rounding_22 rounding_23 rounding_24 rounding_25 rounding_26 rounding_27 rounding_28
  rounding_29 rounding_30 rounding_31 rounding_32 rounding_33 rounding_34 rounding_35 rounding_36
  rounding_37 rounding_38 rounding_39 rounding_40 rounding_41 rounding_42 rounding_43 rounding_44
  rounding_45 rounding_46 rounding_47 rounding_48 rounding_49 rounding_50 rounding_51 rounding_52
  rounding_53 rounding_54 rounding_55 rounding_56 rounding_57 rounding_58 rounding_59 rounding_60
  rounding_61 rounding_62 rounding_63 rounding_64 rounding_65 rounding_66 rounding_67 rounding_68
  rounding_69 rounding_70 rounding_71 rounding_72 rounding_73 rounding_74 rounding_75 rounding_76
  rounding_77 rounding_78 rounding_79 rounding_80 rounding_81 rounding_82 rounding_83 rounding_84
  rounding_85

section \<open>Fusion\<close>

lemma jsqrt_1 [simp]: "jsqrt (Num 1) = Num 1"
  by simp

lemma jmin_Num: "jmin (Num a) (Num b) = Num (min a b)"
  by (auto simp: jmin_def)

lemma jmax_Num: "jmax (Num a) (Num b) = Num (max a b)"
  by (auto simp: jmax_def)

lemma rawScore_spec: "rawScore t p e c en d = spec_raw t p e c en d"
  by (simp add: rawScore_def spec_raw_def jmul_commute)

lemma clamp_spec: "jmax (Num 0) (jmin (Num 100) x) = spec_clamp x"
  by (cases x) (auto simp: jmax_def jmin_def spec_clamp_def jgt_def)

lemma adjustedScore_spec: "adjustedScore raw = spec_clamp (spec_remap (16667 / 100) raw)"
proof -
  have "(if jgt raw (fl (7 / 10))
         then jadd (Num 50) (jmul (jsub raw (fl (7 / 10))) (fl (16667 / 100)))
         else if jgt raw (fl (4 / 10))
         then jadd (Num 20) (jmul (jsub raw (fl (4 / 10))) (Num 100))
         else jmul raw (Num 50)) = spec_remap (16667 / 100) raw"
    by (cases raw) (auto simp: spec_remap_def jgt_def jle_def lit_07 lit_04)
  then show ?thesis
    by (simp only: adjustedScore_def Let_def clamp_spec)
qed

lemma fusion_spec:
  "fusion t p e c en d = spec_score (16667 / 100) (spec_raw t p e c en d)"
  by (simp only: fusion_def roundedScore_def rawScore_spec adjustedScore_spec spec_score_def)

text \<open>
  C1, as the code has it. For two present, well-formed buffers the callback receives the
  rounding of the clamped remap of the weighted sum
  \<open>0.35 timbre + 0.25 pitch + 0.15 envelope + 0.10 centroid + 0.10 energy + 0.05 duration\<close>
  of the six terms that the code computes, where the slope of the upper branch of the
  remap is 166.67; the sum, the remap and the rounding are those of the doubles (a term
  that is not a number makes the reported score \<open>NaN\<close>).
\<close>

theorem compareAudio_fusion:
  fixes h :: heap and b1 b2 :: AudioBuffer
  defines "minLength \<equiv> min (length (channel h b1 0)) (length (channel h b2 0))"
  defines "normalized1 \<equiv> take minLength (channel h b1 0)"
    and "normalized2 \<equiv> take minLength (channel h b2 0)"
  assumes "player1OriginalBuffer this = Some b1" "player2ReverseForwardBuffer this = Some b2"
    and "wf_buffer h b1" "wf_buffer h b2"
  shows "fst (compareAudio math this True h) =
           [spec_score (16667 / 100)
              (spec_raw (mfccSimilarity math normalized1 normalized2 (sampleRate b1))
                        (pitchMatch normalized1 normalized2 (sampleRate b1))
                        (envelopeMatch normalized1 normalized2)
                        (spectralMatch normalized1 normalized2 (sampleRate b1))
                        (energyMatch normalized1 normalized2 minLength)
                        (durationMatch b1 b2))]"
proof -
  have "fst (compareAudio math this True h) = [score math b1 b2 normalized1 normalized2 minLength]"
    using compareAudio_present [OF assms(4-7), of math True]
    by (simp add: minLength_def normalized1_def normalized2_def channel_def)
  then show ?thesis
    by (simp add: score_def fusion_spec Let_def)
qed

section \<open>Short buffers\<close>

lemma fusion_eval:
  "fusion t p e c en d =
     jround (jmax (Num 0) (jmin (Num 100)
       (let raw = rawScore t p e c en d
        in if jgt raw (fl (7 / 10))
           then jadd (Num 50) (jmul (jsub raw (fl (7 / 10))) (fl (16667 / 100)))
           else if jgt raw (fl (4 / 10))
           then jadd (Num 20) (jmul (jsub raw (fl (4 / 10))) (Num 100))
           else jmul raw (Num 50))))"
  by (simp add: fusion_def roundedScore_def adjustedScore_def Let_def)

text \<open>
  A one-sample buffer compared with itself: no extractor has a frame to work on, the
  timbre, pitch and envelope terms take their neutral value 0.5, the raw score is 0.625,
  the remapped score is 42.5 and the reported score is 43.
\<close>

theorem compareAudio_identical_counterexample:
  "compareAudio Math_rounded
        \<lparr>player1OriginalBuffer =
           Some \<lparr>numberOfChannels = 1, length_buf = 1, sampleRate = 48000, channelData = [0]\<rparr>,
         player1ReversedBuffer = None, player2AttemptBuffer = None,
         player2ReverseForwardBuffer =
           Some \<lparr>numberOfChannels = 1, length_buf = 1, sampleRate = 48000, channelData = [0]\<rparr>\<rparr>
        True [[1]]
   = ([Num 43], [[1], [1], [1], [1], [1]])"
proof -
  let ?b = "\<lparr>numberOfChannels = 1, length_buf = 1, sampleRate = 48000, channelData = [0]\<rparr>"
  let ?am = "\<lparr>player1OriginalBuffer = Some ?b,
       player1ReversedBuffer = None, player2AttemptBuffer = None,
       player2ReverseForwardBuffer = Some ?b\<rparr>"
  have wf: "wf_buffer [[1]] ?b"
    by (simp add: wf_buffer_def)
  have e: "energyMatch [1] [1] 1 = Num 1"
    by (simp add: energyMatch_def jsum_def jmin_def jmax_def literals)
  have d: "durationMatch ?b ?b = Num 1"
    by (intro durationMatch_identical) (simp_all add: api_buffer_def pow2_def)
  have "score Math_rounded ?b ?b [1] [1] 1 = Num 43"
    unfolding score_short [of "[1]" "[1]", simplified] e d
    by (simp add: fusion_eval rawScore_def jgt_def jsub_def jmax_def jmin_def literals roundings)
  then show ?thesis
    using compareAudio_present [OF _ _ wf wf, of ?am Math_rounded True]
    by (simp add: arr_def)
qed

text \<open>
  A rounding that falls below a half: one sample against five. The duration match is
  \<open>0.19999999999999996\<close>, the remapped score \<open>38.49999999999999\<close>, and the reported
  score 38.
\<close>

lemma compareAudio_one_against_five:
  "fst (compareAudio Math_rounded
        \<lparr>player1OriginalBuffer =
           Some \<lparr>numberOfChannels = 1, length_buf = 1, sampleRate = 48000, channelData = [0]\<rparr>,
         player1ReversedBuffer = None, player2AttemptBuffer = None,
         player2ReverseForwardBuffer =
           Some \<lparr>numberOfChannels = 1, length_buf = 5, sampleRate = 48000, channelData = [1]\<rparr>\<rparr>
        True [[1], [1, 1, 1, 1, 1]])
   = [Num 38]"
proof -
  let ?b1 = "\<lparr>numberOfChannels = 1, length_buf = 1, sampleRate = 48000, channelData = [0]\<rparr>"
  let ?b2 = "\<lparr>numberOfChannels = 1, length_buf = 5, sampleRate = 48000, channelData = [1]\<rparr>"
  let ?am = "\<lparr>player1OriginalBuffer = Some ?b1,
       player1ReversedBuffer = None, player2AttemptBuffer = None,
       player2ReverseForwardBuffer = Some ?b2\<rparr>"
  have wf: "wf_buffer [[1], [1, 1, 1, 1, 1]] ?b1" "wf_buffer [[1], [1, 1, 1, 1, 1]] ?b2"
    by (simp_all add: wf_buffer_def)
  have e: "energyMatch [1] [1] 1 = Num 1"
    by (simp add: energyMatch_def jsum_def jmin_def jmax_def literals)
  have d: "durationMatch ?b1 ?b2 = Num (900719925474099 / 4503599627370496)"
    by (simp add: durationMatch_def duration_def jsub_def jmax_def roundings)
  have "score Math_rounded ?b1 ?b2 [1] [1] 1 = Num 38"
    unfolding score_short [of "[1]" "[1]", simplified] e d
    by (simp add: fusion_eval rawScore_def jgt_def jsub_def jmax_def jmin_def literals roundings)
  then show ?thesis
    using compareAudio_present [OF _ _ wf, of ?am Math_rounded True]
    by (simp add: arr_def)
qed

section \<open>Symmetry of the similarity terms\<close>



lemma jabs_jneg [simp]: "jabs (jneg a) = jabs a"
  by (cases a) simp_all


















section \<open>Two buffers of different sample rates\<close>





end
